theory Spec2Isabelle
  imports Complex_Main "HOL-Library.Char_ord" "HOL-Library.List_Lexorder"
begin

section \<open>Values\<close>

text \<open>
  The exceptions the pipeline can raise while it normalises its two tables.
\<close>

datatype py_error = AttributeError | ValueError | OverflowError | KeyError

text \<open>
  A float64 cell. Finite values are idealised as rationals (no rounding, no overflow, no
  signed zero); the three special values are kept, since the conversion rate and the
  percent changes reach them by dividing by zero.
\<close>

datatype fval = Fin rat | PosInf | NegInf | NaN

fun fdiv :: "fval \<Rightarrow> fval \<Rightarrow> fval" where
  "fdiv NaN y = NaN"
| "fdiv x NaN = NaN"
| "fdiv (Fin a) (Fin b) =
     (if b = 0 then (if a = 0 then NaN else if 0 < a then PosInf else NegInf)
      else Fin (a / b))"
| "fdiv (Fin a) y = Fin 0"
| "fdiv PosInf (Fin b) = (if 0 \<le> b then PosInf else NegInf)"
| "fdiv NegInf (Fin b) = (if 0 \<le> b then NegInf else PosInf)"
| "fdiv x y = NaN"

fun fsub :: "fval \<Rightarrow> fval \<Rightarrow> fval" where
  "fsub NaN y = NaN"
| "fsub x NaN = NaN"
| "fsub (Fin a) (Fin b) = Fin (a - b)"
| "fsub (Fin a) PosInf = NegInf"
| "fsub (Fin a) NegInf = PosInf"
| "fsub PosInf PosInf = NaN"
| "fsub NegInf NegInf = NaN"
| "fsub PosInf y = PosInf"
| "fsub NegInf y = NegInf"

fun fadd :: "fval \<Rightarrow> fval \<Rightarrow> fval" where
  "fadd NaN y = NaN"
| "fadd x NaN = NaN"
| "fadd (Fin a) (Fin b) = Fin (a + b)"
| "fadd (Fin a) y = y"
| "fadd PosInf NegInf = NaN"
| "fadd NegInf PosInf = NaN"
| "fadd x y = x"

fun fmul :: "fval \<Rightarrow> fval \<Rightarrow> fval" where
  "fmul NaN y = NaN"
| "fmul x NaN = NaN"
| "fmul (Fin a) (Fin b) = Fin (a * b)"
| "fmul (Fin a) PosInf = (if a = 0 then NaN else if 0 < a then PosInf else NegInf)"
| "fmul (Fin a) NegInf = (if a = 0 then NaN else if 0 < a then NegInf else PosInf)"
| "fmul PosInf (Fin b) = (if b = 0 then NaN else if 0 < b then PosInf else NegInf)"
| "fmul NegInf (Fin b) = (if b = 0 then NaN else if 0 < b then NegInf else PosInf)"
| "fmul PosInf PosInf = PosInf"
| "fmul NegInf NegInf = PosInf"
| "fmul x y = NegInf"

text \<open>An int64 cell read as float64, and the true division of two int64 columns.\<close>

definition to_float :: "int \<Rightarrow> fval" where
  "to_float i = Fin (of_int i)"

definition true_div :: "int \<Rightarrow> int \<Rightarrow> fval" where
  "true_div a b = fdiv (to_float a) (to_float b)"

section \<open>Strings\<close>

text \<open>
  Strings are ASCII text. \<open>split_on\<close> is \<open>str.split(sep)\<close> for a one-character
  separator, \<open>title\<close> is \<open>str.title()\<close>, \<open>zfill2\<close> is \<open>str.zfill(2)\<close>,
  \<open>str_int\<close> is \<open>str\<close> of an integer and \<open>py_int\<close> is \<open>int\<close> of a string.
\<close>

fun split_on :: "char \<Rightarrow> string \<Rightarrow> string list" where
  "split_on sep [] = [[]]"
| "split_on sep (c # cs) =
     (if c = sep then [] # split_on sep cs
      else (case split_on sep cs of [] \<Rightarrow> [[c]] | w # ws \<Rightarrow> (c # w) # ws))"

definition ascii_lowercase :: string where
  "ascii_lowercase = ''abcdefghijklmnopqrstuvwxyz''"

definition ascii_uppercase :: string where
  "ascii_uppercase = ''ABCDEFGHIJKLMNOPQRSTUVWXYZ''"

definition is_lower :: "char \<Rightarrow> bool" where
  "is_lower c = (c \<in> set ascii_lowercase)"

definition is_upper :: "char \<Rightarrow> bool" where
  "is_upper c = (c \<in> set ascii_uppercase)"

definition is_digit :: "char \<Rightarrow> bool" where
  "is_digit c = (CHR ''0'' \<le> c \<and> c \<le> CHR ''9'')"

definition to_upper :: "char \<Rightarrow> char" where
  "to_upper c = (case map_of (zip ascii_lowercase ascii_uppercase) c of None \<Rightarrow> c | Some u \<Rightarrow> u)"

definition to_lower :: "char \<Rightarrow> char" where
  "to_lower c = (case map_of (zip ascii_uppercase ascii_lowercase) c of None \<Rightarrow> c | Some l \<Rightarrow> l)"

fun title_from :: "bool \<Rightarrow> string \<Rightarrow> string" where
  "title_from previous_is_cased [] = []"
| "title_from previous_is_cased (c # cs) =
     (if is_lower c then (if previous_is_cased then c else to_upper c) # title_from True cs
      else if is_upper c then (if previous_is_cased then to_lower c else c) # title_from True cs
      else c # title_from False cs)"

definition title :: "string \<Rightarrow> string" where
  "title s = title_from False s"

definition zfill2 :: "string \<Rightarrow> string" where
  "zfill2 s =
     (case s of
        [] \<Rightarrow> ''00''
      | [c] \<Rightarrow> (if c = CHR ''+'' \<or> c = CHR ''-'' then [c, CHR ''0''] else [CHR ''0'', c])
      | _ \<Rightarrow> s)"

definition digit_val :: "char \<Rightarrow> nat" where
  "digit_val c = of_char c - 48"

definition digit_char :: "nat \<Rightarrow> char" where
  "digit_char d = ''0123456789'' ! d"

fun str_nat :: "nat \<Rightarrow> string" where
  "str_nat n = (if n < 10 then [digit_char n] else str_nat (n div 10) @ [digit_char (n mod 10)])"

declare str_nat.simps [simp del]

definition str_int :: "int \<Rightarrow> string" where
  "str_int i = (if i < 0 then CHR ''-'' # str_nat (nat (- i)) else str_nat (nat i))"

definition is_space :: "char \<Rightarrow> bool" where
  "is_space c = (c \<in> set [CHR '' '', CHR 0x09, CHR 0x0A, CHR 0x0B, CHR 0x0C, CHR 0x0D,
                             CHR 0x1C, CHR 0x1D, CHR 0x1E, CHR 0x1F])"

definition strip :: "string \<Rightarrow> string" where
  "strip s = rev (dropWhile is_space (rev (dropWhile is_space s)))"

text \<open>
  The digits of an integer literal: decimal digits, with single underscores allowed
  between two digits.
\<close>

fun int_digits :: "nat \<Rightarrow> bool \<Rightarrow> string \<Rightarrow> nat option" where
  "int_digits acc after_digit [] = (if after_digit then Some acc else None)"
| "int_digits acc after_digit (c # cs) =
     (if is_digit c then int_digits (10 * acc + digit_val c) True cs
      else if c = CHR ''_'' \<and> after_digit then int_digits acc False cs
      else None)"

definition py_int :: "string \<Rightarrow> int option" where
  "py_int s =
     (case strip s of
        [] \<Rightarrow> None
      | c # cs \<Rightarrow>
          if c = CHR ''-'' then map_option (\<lambda>n. - int n) (int_digits 0 False cs)
          else if c = CHR ''+'' then map_option int (int_digits 0 False cs)
          else map_option int (int_digits 0 False (c # cs)))"

text \<open>\<open>astype(int)\<close> on a column of strings: each cell through \<open>int\<close>, into int64.\<close>

definition astype_int :: "string \<Rightarrow> py_error + int" where
  "astype_int s =
     (case py_int s of
        None \<Rightarrow> Inl ValueError
      | Some v \<Rightarrow> if - (2 ^ 63) \<le> v \<and> v < 2 ^ 63 then Inr v else Inl OverflowError)"

section \<open>Month names\<close>

definition calendar_months :: "string list" where
  "calendar_months = [''January'', ''February'', ''March'', ''April'', ''May'', ''June'',
     ''July'', ''August'', ''September'', ''October'', ''November'', ''December'']"

text \<open>
  \<open>pd.to_datetime(token, format='%m')\<close>: the whole token must be matched by the
  directive's pattern \<open>1[0-2]|0[1-9]|[1-9]\<close>.
\<close>

fun strptime_m :: "string \<Rightarrow> nat option" where
  "strptime_m [c] = (if CHR ''1'' \<le> c \<and> c \<le> CHR ''9'' then Some (digit_val c) else None)"
| "strptime_m [a, b] =
     (if a = CHR ''1'' \<and> CHR ''0'' \<le> b \<and> b \<le> CHR ''2'' then Some (10 + digit_val b)
      else if a = CHR ''0'' \<and> CHR ''1'' \<le> b \<and> b \<le> CHR ''9'' then Some (digit_val b)
      else None)"
| "strptime_m token = None"

definition map_month :: "string \<Rightarrow> py_error + string" where
  "map_month month_number =
     (case strptime_m month_number of
        None \<Rightarrow> Inl ValueError
      | Some n \<Rightarrow> Inr (calendar_months ! (n - 1)))"

section \<open>Tables\<close>

text \<open>
  The session table as \<open>read_csv\<close> delivers it, one record per row: the three summed
  columns first, so that every table with these columns shares their selectors. Counts
  are unbounded integers; they agree with the int64 cells of the source as long as no
  sum leaves the int64 range.
\<close>

record metrics =
  sessions :: int
  transactions :: int
  QTY :: int

record session_raw = metrics +
  dim_date :: string
  dim_deviceCategory :: string
  dim_browser :: string

text \<open>
  A row after \<open>clean_tables\<close>. \<open>month_name\<close> is a categorical column: its cell is a
  category or missing (\<open>None\<close>), and the column's categories, in their order, belong to
  the table.
\<close>

record session = session_raw +
  Month :: string
  Year :: int
  month_name :: "string option"

record session_frame =
  month_categories :: "string list"
  rows :: "session list"

record cart_base =
  addsToCart :: int

record cart_raw = cart_base +
  dim_month :: int
  dim_year :: int

text \<open>
  A cart-add row after \<open>clean_tables\<close>: \<open>dim_month\<close> is now a string, \<open>dim_year\<close>
  is renamed to \<open>Year\<close>, and \<open>month_name\<close> is categorical.
\<close>

record cart = cart_base +
  cart_dim_month :: string
  cart_Year :: int
  cart_month_name :: "string option"

record cart_frame =
  cart_month_categories :: "string list"
  cart_rows :: "cart list"

text \<open>The result of a \<open>groupby(...).agg(sum)\<close>, and the same with the \<open>ECR\<close> column.\<close>

record 'k grouped = metrics +
  key :: 'k

record 'k agg_row = "'k grouped" +
  ECR :: fval

record month_device_table =
  md_categories :: "string list"
  md_rows :: "(string \<times> string) agg_row list"

text \<open>
  The month-to-month comparison after its transposition: the months are the column
  labels, and each row is a label with one float64 cell per month.
\<close>

record mtm_table =
  mtm_columns :: "string list"
  mtm_rows :: "(string \<times> fval list) list"

section \<open>Library operations\<close>

text \<open>
  The library is read with the defaults of pandas 1.x and 2.x, for which the program was
  written: grouping by a categorical key yields a group for every category, observed or
  not (the program's own removal of all-zero rows in \<open>create_mtm_compare\<close> answers to
  that), and a sum over an empty group is 0.
\<close>

text \<open>\<open>Series.apply\<close> with a function that may raise: the first failure aborts.\<close>

fun apply_each :: "('a \<Rightarrow> py_error + 'b) \<Rightarrow> 'a list \<Rightarrow> py_error + 'b list" where
  "apply_each f [] = Inr []"
| "apply_each f (x # xs) =
     (case f x of
        Inl e \<Rightarrow> Inl e
      | Inr y \<Rightarrow> (case apply_each f xs of Inl e \<Rightarrow> Inl e | Inr ys \<Rightarrow> Inr (y # ys)))"

text \<open>\<open>Series.unique()\<close>: the distinct values in order of first appearance.\<close>

definition unique :: "'a list \<Rightarrow> 'a list" where
  "unique xs = rev (remdups (rev xs))"

text \<open>\<open>pd.Categorical(values, categories=...)\<close>: a value outside the categories is missing.\<close>

definition categorical :: "string list \<Rightarrow> string option \<Rightarrow> string option" where
  "categorical categories v =
     (case v of None \<Rightarrow> None | Some m \<Rightarrow> if m \<in> set categories then Some m else None)"

fun index_of :: "'a \<Rightarrow> 'a list \<Rightarrow> nat" where
  "index_of x [] = 0"
| "index_of x (y # ys) = (if x = y then 0 else Suc (index_of x ys))"

text \<open>The sort code of a categorical cell: its category's position, missing cells last.\<close>

definition cat_code :: "string list \<Rightarrow> string option \<Rightarrow> nat" where
  "cat_code categories v =
     (case v of None \<Rightarrow> length categories | Some m \<Rightarrow> index_of m categories)"

definition agg_sum :: "'k \<Rightarrow> ('a metrics_scheme) list \<Rightarrow> 'k grouped" where
  "agg_sum k members =
     \<lparr>sessions = sum_list (map sessions members),
      transactions = sum_list (map transactions members),
      QTY = sum_list (map QTY members),
      key = k\<rparr>"

text \<open>\<open>grouped['ECR'] = grouped['transactions'] / grouped['sessions']\<close>, row by row.\<close>

definition with_ECR :: "'k grouped \<Rightarrow> 'k agg_row" where
  "with_ECR g =
     \<lparr>sessions = sessions g, transactions = transactions g, QTY = QTY g, key = key g,
      ECR = true_div (transactions g) (sessions g)\<rparr>"

text \<open>A float64 sum that skips missing cells (\<open>skipna\<close>); the empty sum is 0.\<close>

definition nansum :: "fval list \<Rightarrow> fval" where
  "nansum xs = foldl fadd (Fin 0) (filter (\<lambda>x. x \<noteq> NaN) xs)"

text \<open>\<open>Series.diff()\<close> and \<open>Series.pct_change()\<close> on a column without missing cells.\<close>

definition diff :: "fval list \<Rightarrow> fval list" where
  "diff xs = (case xs of [] \<Rightarrow> [] | x # rest \<Rightarrow> NaN # map (\<lambda>(v, prev). fsub v prev) (zip rest xs))"

definition pct_change :: "fval list \<Rightarrow> fval list" where
  "pct_change xs =
     (case xs of
        [] \<Rightarrow> []
      | x # rest \<Rightarrow> NaN # map (\<lambda>(v, prev). fsub (fdiv v prev) (Fin 1)) (zip rest xs))"

text \<open>
  \<open>sort_values(col, ascending=False)\<close> on one integer column. The library reverses the
  column, sorts the reversed column's positions with numpy's \<open>argsort\<close> of the requested
  kind, and reverses the outcome. The program requests no kind, so the kind is
  \<open>quicksort\<close>, which numpy documents as not stable; the routine is a parameter here,
  and \<open>argsort_ok\<close> is all its documentation promises.
\<close>

definition sort_values_desc :: "(int list \<Rightarrow> nat list) \<Rightarrow> ('a \<Rightarrow> int) \<Rightarrow> 'a list \<Rightarrow> 'a list" where
  "sort_values_desc argsort col df =
     (let items = rev (map col df);
          idx = rev [0..<length df];
          indexer = rev (map (\<lambda>i. idx ! i) (argsort items))
      in map (\<lambda>i. df ! i) indexer)"

definition argsort_ok :: "(int list \<Rightarrow> nat list) \<Rightarrow> bool" where
  "argsort_ok argsort =
     (\<forall>items. distinct (argsort items) \<and> set (argsort items) = {..<length items} \<and>
              sorted (map (\<lambda>i. items ! i) (argsort items)))"

section \<open>The Time Normalizer\<close>

text \<open>
  \<open>clean_tables\<close> works column by column, so every row passes one step before any row
  reaches the next. \<open>.str[2]\<close> of a split date with fewer than three components is a
  missing cell, on which \<open>zfill\<close> raises.
\<close>

definition date_part :: "nat \<Rightarrow> string \<Rightarrow> string option" where
  "date_part i d = (let parts = split_on CHR ''/'' d in if i < length parts then Some (parts ! i) else None)"

definition year_text :: "session_raw \<Rightarrow> py_error + string" where
  "year_text r =
     (case date_part 2 (dim_date r) of
        None \<Rightarrow> Inl AttributeError
      | Some y \<Rightarrow> Inr (''20'' @ zfill2 y))"

definition month_text :: "session_raw \<Rightarrow> string" where
  "month_text r = (case date_part 0 (dim_date r) of None \<Rightarrow> [] | Some m \<Rightarrow> m)"

definition cleaned_session :: "string list \<Rightarrow> session_raw \<times> int \<times> string \<Rightarrow> session" where
  "cleaned_session month_order t =
     (case t of (r, y, m) \<Rightarrow>
        \<lparr>sessions = sessions r, transactions = transactions r, QTY = QTY r,
         dim_date = dim_date r, dim_deviceCategory = title (dim_deviceCategory r),
         dim_browser = dim_browser r,
         Month = month_text r, Year = y, month_name = categorical month_order (Some m)\<rparr>)"

definition cleaned_cart :: "string list \<Rightarrow> cart_raw \<times> string \<Rightarrow> cart" where
  "cleaned_cart month_order t =
     (case t of (r, m) \<Rightarrow>
        \<lparr>addsToCart = addsToCart r, cart_dim_month = str_int (dim_month r),
         cart_Year = dim_year r, cart_month_name = categorical month_order (Some m)\<rparr>)"

definition clean_tables :: "session_raw list \<Rightarrow> cart_raw list \<Rightarrow> py_error + (session_frame \<times> cart_frame)" where
  "clean_tables session_cts cart_adds =
     (case apply_each year_text session_cts of
        Inl e \<Rightarrow> Inl e
      | Inr year_texts \<Rightarrow>
     (case apply_each astype_int year_texts of
        Inl e \<Rightarrow> Inl e
      | Inr years \<Rightarrow>
     (case apply_each map_month (map month_text session_cts) of
        Inl e \<Rightarrow> Inl e
      | Inr session_months \<Rightarrow>
     (case apply_each map_month (map (\<lambda>r. str_int (dim_month r)) cart_adds) of
        Inl e \<Rightarrow> Inl e
      | Inr cart_months \<Rightarrow>
          let month_order = unique session_months
          in Inr (\<lparr>month_categories = month_order,
                    rows = map (cleaned_session month_order) (zip session_cts (zip years session_months))\<rparr>,
                  \<lparr>cart_month_categories = month_order,
                    cart_rows = map (cleaned_cart month_order) (zip cart_adds cart_months)\<rparr>)))))"

section \<open>The aggregators\<close>

text \<open>
  \<open>sort_values(by=['Year', 'month_name'])\<close>: with several keys the library sorts
  lexicographically and stably, the categorical key by its codes.
\<close>

definition filter_last_months :: "session_frame \<Rightarrow> session_frame" where
  "filter_last_months df =
     (let sorted_rows = sort_key Year (sort_key (\<lambda>r. cat_code (month_categories df) (month_name r)) (rows df));
          months = unique (map month_name sorted_rows);
          last_months = drop (length months - 3) months
      in df\<lparr>rows := filter (\<lambda>r. month_name r \<in> set last_months) sorted_rows\<rparr>)"

text \<open>
  \<open>create_month_device\<close> writes the recast \<open>month_name\<close> column into the table it was
  given: the first component of the result is that table after the call, the second is
  the table returned.
\<close>

definition july_to_june :: "string list" where
  "july_to_june = [''July'', ''August'', ''September'', ''October'', ''November'',
                   ''December'', ''January'', ''February'', ''March'',
                   ''April'', ''May'', ''June'']"

definition create_month_device :: "session_frame \<Rightarrow> session_frame \<times> month_device_table" where
  "create_month_device md =
     (let month_order = july_to_june;
          md' = \<lparr>month_categories = month_order,
                 rows = map (\<lambda>r. r\<lparr>month_name := categorical month_order (month_name r)\<rparr>) (rows md)\<rparr>;
          devices = sort (remdups (map dim_deviceCategory (rows md')));
          grouped_md = map (\<lambda>k. agg_sum k (filter (\<lambda>r. month_name r = Some (fst k) \<and> dim_deviceCategory r = snd k) (rows md')))
                         (List.product month_order devices)
      in (md', \<lparr>md_categories = month_order, md_rows = map with_ECR grouped_md\<rparr>))"

definition create_browser_device :: "session_frame \<Rightarrow> string agg_row list" where
  "create_browser_device md =
     (let browsers = sort (remdups (map dim_browser (rows md)));
          grouped_md = map (\<lambda>b. agg_sum b (filter (\<lambda>r. dim_browser r = b) (rows md))) browsers
      in map with_ECR grouped_md)"

section \<open>The Trend Comparator\<close>

definition fillna0 :: "'k agg_row \<Rightarrow> 'k agg_row" where
  "fillna0 r = (if ECR r = NaN then r\<lparr>ECR := Fin 0\<rparr> else r)"

definition all_nonzero :: "'k agg_row \<Rightarrow> bool" where
  "all_nonzero r = (sessions r \<noteq> 0 \<and> transactions r \<noteq> 0 \<and> QTY r \<noteq> 0 \<and> ECR r \<noteq> Fin 0)"

text \<open>
  The inner merge on \<open>month_name\<close>: the left rows in their order, each with the cart-add
  rows of its month in their order.
\<close>

definition merge_inner :: "string agg_row list \<Rightarrow> cart list \<Rightarrow> (string agg_row \<times> int) list" where
  "merge_inner left right =
     concat (map (\<lambda>l. map (\<lambda>a. (l, addsToCart a)) (filter (\<lambda>a. cart_month_name a = Some (key l)) right)) left)"

definition change_rows :: "string \<Rightarrow> fval list \<Rightarrow> (string \<times> fval list) list" where
  "change_rows col values =
     [(col, values),
      (col @ ''_abs_change'', diff values),
      (col @ ''_pct_change'', map (\<lambda>x. fmul x (Fin 100)) (pct_change values))]"

text \<open>The grouped table of the last three months, with its \<open>ECR\<close> column.\<close>

definition last_three_grouped :: "session_frame \<Rightarrow> string agg_row list" where
  "last_three_grouped session_counts =
     (let last_three = filter_last_months session_counts
      in map (\<lambda>m. with_ECR (agg_sum m (filter (\<lambda>r. month_name r = Some m) (rows last_three))))
             (month_categories last_three))"

text \<open>The grouped table after \<open>fillna(0)\<close> and the row filter, merged with the cart adds.\<close>

definition merged_last_three :: "session_frame \<Rightarrow> cart_frame \<Rightarrow> (string agg_row \<times> int) list" where
  "merged_last_three session_counts adds =
     merge_inner (filter all_nonzero (map fillna0 (last_three_grouped session_counts))) (cart_rows adds)"

definition create_mtm_compare :: "session_frame \<Rightarrow> cart_frame \<Rightarrow> mtm_table" where
  "create_mtm_compare session_counts adds =
     (let merged = merged_last_three session_counts adds
      in \<lparr>mtm_columns = map (\<lambda>(l, a). key l) merged,
          mtm_rows =
            change_rows ''sessions'' (map (\<lambda>(l, a). to_float (sessions l)) merged) @
            change_rows ''addsToCart'' (map (\<lambda>(l, a). to_float a) merged) @
            change_rows ''transactions'' (map (\<lambda>(l, a). to_float (transactions l)) merged) @
            change_rows ''QTY'' (map (\<lambda>(l, a). to_float (QTY l)) merged) @
            change_rows ''ECR'' (map (\<lambda>(l, a). ECR l) merged)\<rparr>)"

section \<open>The Totals Augmenter\<close>

definition month_total :: "(string \<times> string) agg_row list \<Rightarrow> string \<Rightarrow> (string \<times> string) agg_row" where
  "month_total month_device m =
     (let members = filter (\<lambda>r. fst (key r) = m) month_device
      in \<lparr>sessions = sum_list (map sessions members),
          transactions = sum_list (map transactions members),
          QTY = sum_list (map QTY members),
          key = (m, ''Total''),
          ECR = nansum (map ECR members)\<rparr>)"

definition with_device_order :: "string list \<Rightarrow> (string \<times> string) agg_row \<Rightarrow> (string \<times> string option) agg_row" where
  "with_device_order order r =
     \<lparr>sessions = sessions r, transactions = transactions r, QTY = QTY r,
      key = (fst (key r), categorical order (Some (snd (key r)))),
      ECR = ECR r\<rparr>"

definition device_order :: "string list" where
  "device_order = [''Desktop'', ''Mobile'', ''Tablet'', ''Total'']"

definition create_month_device_totals :: "month_device_table \<Rightarrow> (string \<times> string option) agg_row list" where
  "create_month_device_totals month_device =
     (let totals = map (month_total (md_rows month_device)) (md_categories month_device);
          order = device_order;
          month_device_with_totals = map (with_device_order order) (md_rows month_device @ totals)
      in sort_key (\<lambda>r. cat_code (md_categories month_device) (Some (fst (key r))))
           (sort_key (\<lambda>r. cat_code order (snd (key r))) month_device_with_totals))"

section \<open>The pipeline\<close>

record workbook =
  month_device_agg :: month_device_table
  mtm_compare :: mtm_table
  browser :: "string agg_row list"
  month_device_with_totals :: "(string \<times> string option) agg_row list"

text \<open>The browser sheet: the browser groups, sorted by sessions, the first twenty.\<close>

definition top_browsers :: "(int list \<Rightarrow> nat list) \<Rightarrow> session_frame \<Rightarrow> string agg_row list" where
  "top_browsers argsort sc = take 20 (sort_values_desc argsort sessions (create_browser_device sc))"

text \<open>
  \<open>generate_excel\<close> from the two parsed files to the four sheets it writes. The session
  table that reaches \<open>create_browser_device\<close> and \<open>create_mtm_compare\<close> is the one
  \<open>create_month_device\<close> has written into.
\<close>

definition generate_excel :: "(int list \<Rightarrow> nat list) \<Rightarrow> session_raw list \<Rightarrow> cart_raw list \<Rightarrow> py_error + workbook" where
  "generate_excel argsort session_counts adds_to_cart =
     (case clean_tables session_counts adds_to_cart of
        Inl e \<Rightarrow> Inl e
      | Inr (sc0, adds) \<Rightarrow>
          (case create_month_device sc0 of (sc, agg) \<Rightarrow>
             Inr \<lparr>month_device_agg = agg,
                  mtm_compare = create_mtm_compare sc adds,
                  browser = top_browsers argsort sc,
                  month_device_with_totals = create_month_device_totals agg\<rparr>))"

section \<open>Tables as objects\<close>

text \<open>
  A DataFrame is an object: a function that assigns to a column of the table it was given
  changes that table for every holder of it. The heap lists the tables alive, a table's
  address is its position, and a new table goes to the end. The procedures below are the
  five components and the pipeline as calls on tables of the heap. Each is given for
  arguments of the kind the pipeline passes it; for an argument of another kind the model
  gives no answer (\<open>None\<close>).
\<close>

datatype table =
    SessionCsv "session_raw list"
  | CartCsv "cart_raw list"
  | Sessions session_frame
  | CartAdds cart_frame
  | MonthDevice month_device_table
  | Browsers "string agg_row list"
  | MonthToMonth mtm_table
  | MonthDeviceTotals "(string \<times> string option) agg_row list"

type_synonym heap = "table list"

definition new_table :: "heap \<Rightarrow> table \<Rightarrow> heap \<times> nat" where
  "new_table h t = (h @ [t], length h)"

definition table_at :: "heap \<Rightarrow> nat \<Rightarrow> table option" where
  "table_at h a = (if a < length h then Some (h ! a) else None)"

text \<open>
  \<open>clean_tables\<close> assigns its columns to the two tables it was given and returns these
  same two tables.
\<close>

definition run_clean_tables :: "heap \<Rightarrow> nat \<Rightarrow> nat \<Rightarrow> (py_error + heap \<times> nat \<times> nat) option" where
  "run_clean_tables h session_cts cart_adds =
     (case (table_at h session_cts, table_at h cart_adds) of
        (Some (SessionCsv s), Some (CartCsv c)) \<Rightarrow>
          Some (case clean_tables s c of
                  Inl e \<Rightarrow> Inl e
                | Inr (sc, adds) \<Rightarrow>
                    Inr (h[session_cts := Sessions sc, cart_adds := CartAdds adds], session_cts, cart_adds))
      | _ \<Rightarrow> None)"

text \<open>
  \<open>create_month_device\<close> assigns \<open>month_name\<close> to the table it was given and returns a
  new table.
\<close>

definition run_create_month_device :: "heap \<Rightarrow> nat \<Rightarrow> (heap \<times> nat) option" where
  "run_create_month_device h md =
     (case table_at h md of
        Some (Sessions f) \<Rightarrow>
          (case create_month_device f of
             (f', grouped_md) \<Rightarrow> Some (new_table (h[md := Sessions f']) (MonthDevice grouped_md)))
      | _ \<Rightarrow> None)"

text \<open>The other three components build their result from copies and return a new table.\<close>

definition run_create_browser_device :: "heap \<Rightarrow> nat \<Rightarrow> (heap \<times> nat) option" where
  "run_create_browser_device h md =
     (case table_at h md of
        Some (Sessions f) \<Rightarrow> Some (new_table h (Browsers (create_browser_device f)))
      | _ \<Rightarrow> None)"

definition run_create_mtm_compare :: "heap \<Rightarrow> nat \<Rightarrow> nat \<Rightarrow> (heap \<times> nat) option" where
  "run_create_mtm_compare h session_counts adds =
     (case (table_at h session_counts, table_at h adds) of
        (Some (Sessions f), Some (CartAdds c)) \<Rightarrow> Some (new_table h (MonthToMonth (create_mtm_compare f c)))
      | _ \<Rightarrow> None)"

definition run_create_month_device_totals :: "heap \<Rightarrow> nat \<Rightarrow> (heap \<times> nat) option" where
  "run_create_month_device_totals h month_device =
     (case table_at h month_device of
        Some (MonthDevice t) \<Rightarrow> Some (new_table h (MonthDeviceTotals (create_month_device_totals t)))
      | _ \<Rightarrow> None)"

text \<open>\<open>browser.sort_values('sessions', ascending=False)[:20]\<close>: a new table.\<close>

definition run_sort_top20 :: "(int list \<Rightarrow> nat list) \<Rightarrow> heap \<Rightarrow> nat \<Rightarrow> (heap \<times> nat) option" where
  "run_sort_top20 argsort h b =
     (case table_at h b of
        Some (Browsers t) \<Rightarrow> Some (new_table h (Browsers (take 20 (sort_values_desc argsort sessions t))))
      | _ \<Rightarrow> None)"

text \<open>
  \<open>generate_excel\<close> on a heap: \<open>read_csv\<close> makes the two tables anew from the parsed
  files, and the result names the four tables handed to the writer, in the order of
  their sheets.
\<close>

definition run_generate_excel ::
    "(int list \<Rightarrow> nat list) \<Rightarrow> heap \<Rightarrow> session_raw list \<Rightarrow> cart_raw list \<Rightarrow> (py_error + heap \<times> nat list) option" where
  "run_generate_excel argsort h session_counts adds_to_cart =
     (case new_table h (SessionCsv session_counts) of (h1, sc0) \<Rightarrow>
      case new_table h1 (CartCsv adds_to_cart) of (h2, adds0) \<Rightarrow>
      case run_clean_tables h2 sc0 adds0 of
        None \<Rightarrow> None
      | Some (Inl e) \<Rightarrow> Some (Inl e)
      | Some (Inr (h3, sc, adds)) \<Rightarrow>
      case run_create_month_device h3 sc of
        None \<Rightarrow> None
      | Some (h4, agg_at) \<Rightarrow>
      case run_create_browser_device h4 sc of
        None \<Rightarrow> None
      | Some (h5, grouped_at) \<Rightarrow>
      case run_sort_top20 argsort h5 grouped_at of
        None \<Rightarrow> None
      | Some (h6, browser_at) \<Rightarrow>
      case run_create_mtm_compare h6 sc adds of
        None \<Rightarrow> None
      | Some (h7, mtm_at) \<Rightarrow>
      case run_create_month_device_totals h7 agg_at of
        None \<Rightarrow> None
      | Some (h8, totals_at) \<Rightarrow>
          Some (Inr (h8, [agg_at, mtm_at, browser_at, totals_at])))"

text \<open>The sheets of a workbook, as the tables the writer is handed.\<close>

definition sheets :: "workbook \<Rightarrow> table list" where
  "sheets wb = [MonthDevice (month_device_agg wb), MonthToMonth (mtm_compare wb),
                Browsers (browser wb), MonthDeviceTotals (month_device_with_totals wb)]"

text \<open>What a run hands to the writer: the tables at the addresses it names, or its error.\<close>

definition written :: "(py_error + heap \<times> nat list) option \<Rightarrow> (py_error + table list) option" where
  "written res =
     (case res of
        None \<Rightarrow> None
      | Some (Inl e) \<Rightarrow> Some (Inl e)
      | Some (Inr (h, addresses)) \<Rightarrow> Some (Inr (map (\<lambda>a. h ! a) addresses)))"

section \<open>Example tables\<close>

definition csv_session :: "string \<Rightarrow> string \<Rightarrow> string \<Rightarrow> int \<Rightarrow> int \<Rightarrow> int \<Rightarrow> session_raw" where
  "csv_session date device browser_name s t q =
     \<lparr>sessions = s, transactions = t, QTY = q,
      dim_date = date, dim_deviceCategory = device, dim_browser = browser_name\<rparr>"

definition csv_cart :: "int \<Rightarrow> int \<Rightarrow> int \<Rightarrow> cart_raw" where
  "csv_cart m y a = \<lparr>addsToCart = a, dim_month = m, dim_year = y\<rparr>"

text \<open>A session file whose only row has transactions but no sessions.\<close>

definition zero_session_csv :: "session_raw list" where
  "zero_session_csv = [csv_session ''7/1/12'' ''desktop'' ''Chrome'' 0 1 1]"

definition zero_session_frame :: session_frame where
  "zero_session_frame =
     \<lparr>month_categories = [''July''],
      rows = [\<lparr>sessions = 0, transactions = 1, QTY = 1, dim_date = ''7/1/12'',
               dim_deviceCategory = ''Desktop'', dim_browser = ''Chrome'',
               Month = ''7'', Year = 2012, month_name = Some ''July''\<rparr>]\<rparr>"

text \<open>The scenario of the specification: July and August 2012, desktop only.\<close>

definition summer_csv :: "session_raw list" where
  "summer_csv =
     [csv_session ''7/1/12'' ''desktop'' ''Chrome'' 100 10 5,
      csv_session ''8/1/12'' ''desktop'' ''Safari'' 150 30 10]"

definition summer_frame :: session_frame where
  "summer_frame =
     \<lparr>month_categories = [''July'', ''August''],
      rows = [\<lparr>sessions = 100, transactions = 10, QTY = 5, dim_date = ''7/1/12'',
               dim_deviceCategory = ''Desktop'', dim_browser = ''Chrome'',
               Month = ''7'', Year = 2012, month_name = Some ''July''\<rparr>,
              \<lparr>sessions = 150, transactions = 30, QTY = 10, dim_date = ''8/1/12'',
               dim_deviceCategory = ''Desktop'', dim_browser = ''Safari'',
               Month = ''8'', Year = 2012, month_name = Some ''August''\<rparr>]\<rparr>"

text \<open>Cart adds of July, August and September 2012; September has no session.\<close>

definition summer_cart_csv :: "cart_raw list" where
  "summer_cart_csv = [csv_cart 7 2012 50, csv_cart 8 2012 80, csv_cart 9 2012 10]"

definition summer_cart :: cart_frame where
  "summer_cart =
     \<lparr>cart_month_categories = [''July'', ''August''],
      cart_rows = [\<lparr>addsToCart = 50, cart_dim_month = ''7'', cart_Year = 2012, cart_month_name = Some ''July''\<rparr>,
                   \<lparr>addsToCart = 80, cart_dim_month = ''8'', cart_Year = 2012, cart_month_name = Some ''August''\<rparr>,
                   \<lparr>addsToCart = 10, cart_dim_month = ''9'', cart_Year = 2012, cart_month_name = None\<rparr>]\<rparr>"

text \<open>A routine that meets \<open>argsort_ok\<close> and keeps ties in place: insertion sort.\<close>

definition insertion_argsort :: "int list \<Rightarrow> nat list" where
  "insertion_argsort items = sort_key (\<lambda>i. items ! i) [0..<length items]"

text \<open>A session file whose first row is of January and whose second is of July.\<close>

definition january_first_csv :: "session_raw list" where
  "january_first_csv =
     [csv_session ''1/5/13'' ''desktop'' ''Chrome'' 10 1 1,
      csv_session ''7/5/13'' ''desktop'' ''Chrome'' 20 2 2]"

definition january_first_frame :: session_frame where
  "january_first_frame =
     \<lparr>month_categories = [''January'', ''July''],
      rows = [\<lparr>sessions = 10, transactions = 1, QTY = 1, dim_date = ''1/5/13'',
               dim_deviceCategory = ''Desktop'', dim_browser = ''Chrome'',
               Month = ''1'', Year = 2013, month_name = Some ''January''\<rparr>,
              \<lparr>sessions = 20, transactions = 2, QTY = 2, dim_date = ''7/5/13'',
               dim_deviceCategory = ''Desktop'', dim_browser = ''Chrome'',
               Month = ''7'', Year = 2013, month_name = Some ''July''\<rparr>]\<rparr>"

text \<open>One month with two device categories.\<close>

definition two_device_frame :: session_frame where
  "two_device_frame =
     \<lparr>month_categories = [''July''],
      rows = [\<lparr>sessions = 100, transactions = 10, QTY = 5, dim_date = ''7/1/12'',
               dim_deviceCategory = ''Desktop'', dim_browser = ''Chrome'',
               Month = ''7'', Year = 2012, month_name = Some ''July''\<rparr>,
              \<lparr>sessions = 50, transactions = 10, QTY = 2, dim_date = ''7/2/12'',
               dim_deviceCategory = ''Mobile'', dim_browser = ''Safari'',
               Month = ''7'', Year = 2012, month_name = Some ''July''\<rparr>]\<rparr>"

text \<open>
  A routine that meets \<open>argsort_ok\<close> and returns tied positions last first: insertion
  sort started from the positions in descending order.
\<close>

definition ties_reversed_argsort :: "int list \<Rightarrow> nat list" where
  "ties_reversed_argsort items = sort_key (\<lambda>i. items ! i) (rev [0..<length items])"

text \<open>Two browsers with the same number of sessions.\<close>

definition tied_browsers_frame :: session_frame where
  "tied_browsers_frame =
     \<lparr>month_categories = [''July''],
      rows = [\<lparr>sessions = 10, transactions = 1, QTY = 1, dim_date = ''7/1/12'',
               dim_deviceCategory = ''Desktop'', dim_browser = ''Chrome'',
               Month = ''7'', Year = 2012, month_name = Some ''July''\<rparr>,
              \<lparr>sessions = 10, transactions = 2, QTY = 2, dim_date = ''7/2/12'',
               dim_deviceCategory = ''Desktop'', dim_browser = ''Firefox'',
               Month = ''7'', Year = 2012, month_name = Some ''July''\<rparr>]\<rparr>"

text \<open>Session files with a year that is no number, and with a month token 13.\<close>

definition bad_year_csv :: "session_raw list" where
  "bad_year_csv = [csv_session ''7/1/xx'' ''desktop'' ''Chrome'' 1 1 1]"

definition bad_month_csv :: "session_raw list" where
  "bad_month_csv = [csv_session ''13/1/12'' ''desktop'' ''Chrome'' 1 1 1]"

text \<open>The tables of the scenario as objects, before and after \<open>clean_tables\<close>.\<close>

definition summer_heap :: heap where
  "summer_heap = [Sessions summer_frame, CartAdds summer_cart,
                  MonthDevice (snd (create_month_device summer_frame))]"

definition summer_csv_heap :: heap where
  "summer_csv_heap = [SessionCsv summer_csv, CartCsv summer_cart_csv]"

text \<open>Twenty-one browsers, the i-th with i sessions.\<close>

definition many_browsers_frame :: session_frame where
  "many_browsers_frame =
     \<lparr>month_categories = [''July''],
      rows = map (\<lambda>i. \<lparr>sessions = int i, transactions = 1, QTY = 1, dim_date = ''7/1/12'',
                         dim_deviceCategory = ''Desktop'', dim_browser = ''Browser'' @ str_nat i,
                         Month = ''7'', Year = 2012, month_name = Some ''July''\<rparr>) [1..<22]\<rparr>"

section \<open>Conversion rate\<close>

lemma true_div_cases:
  "true_div t s =
     (if s \<noteq> 0 then Fin (of_int t / of_int s)
      else if t = 0 then NaN else if 0 < t then PosInf else NegInf)"
  by (simp add: true_div_def to_float_def)

lemma with_ECR_simps:
  "ECR (with_ECR g) = true_div (transactions g) (sessions g)"
  "sessions (with_ECR g) = sessions g"
  "transactions (with_ECR g) = transactions g"
  "QTY (with_ECR g) = QTY g"
  "key (with_ECR g) = key g"
  by (simp_all add: with_ECR_def)

lemma agg_sum_simps:
  "sessions (agg_sum k members) = sum_list (map sessions members)"
  "transactions (agg_sum k members) = sum_list (map transactions members)"
  "QTY (agg_sum k members) = sum_list (map QTY members)"
  "key (agg_sum k members) = k"
  by (simp_all add: agg_sum_def)




section \<open>Month-to-month changes\<close>

lemma length_diff: "length (diff xs) = length xs"
  by (cases xs) (simp_all add: diff_def)

lemma length_pct_change: "length (pct_change xs) = length xs"
  by (cases xs) (simp_all add: pct_change_def)

lemma diff_first: "xs \<noteq> [] \<Longrightarrow> diff xs ! 0 = NaN"
  by (cases xs) (simp_all add: diff_def)

lemma pct_change_first: "xs \<noteq> [] \<Longrightarrow> pct_change xs ! 0 = NaN"
  by (cases xs) (simp_all add: pct_change_def)

lemma diff_nth:
  assumes "0 < j" "j < length xs"
  shows "diff xs ! j = fsub (xs ! j) (xs ! (j - 1))"
proof -
  obtain x rest where xs: "xs = x # rest" using assms by (cases xs) auto
  obtain k where j: "j = Suc k" using assms by (cases j) auto
  have "k < length rest" using assms xs j by simp
  then show ?thesis by (simp add: diff_def xs j)
qed

lemma pct_change_nth:
  assumes "0 < j" "j < length xs"
  shows "pct_change xs ! j = fsub (fdiv (xs ! j) (xs ! (j - 1))) (Fin 1)"
proof -
  obtain x rest where xs: "xs = x # rest" using assms by (cases xs) auto
  obtain k where j: "j = Suc k" using assms by (cases j) auto
  have "k < length rest" using assms xs j by simp
  then show ?thesis by (simp add: pct_change_def xs j)
qed

lemma pct_of_finite:
  "fmul (fsub (fdiv (Fin v) (Fin w)) (Fin 1)) (Fin 100) = fmul (fdiv (fsub (Fin v) (Fin w)) (Fin w)) (Fin 100)"
  by (simp add: field_simps)

lemma column_changes:
  assumes fin: "\<forall>x\<in>set vs. \<exists>q. x = Fin q" and j: "0 < j" "j < length vs"
  shows "\<exists>v w. vs ! j = Fin v \<and> vs ! (j - 1) = Fin w \<and> diff vs ! j = Fin (v - w)
           \<and> map (\<lambda>x. fmul x (Fin 100)) (pct_change vs) ! j = fmul (fdiv (fsub (Fin v) (Fin w)) (Fin w)) (Fin 100)
           \<and> (w \<noteq> 0 \<longrightarrow> map (\<lambda>x. fmul x (Fin 100)) (pct_change vs) ! j = Fin ((v - w) / w * 100))"
proof -
  from fin j obtain v where v: "vs ! j = Fin v" by (metis nth_mem)
  from fin j obtain w where w: "vs ! (j - 1) = Fin w" by (metis less_imp_diff_less nth_mem)
  have d: "diff vs ! j = Fin (v - w)" using diff_nth [OF j] v w by simp
  have p: "map (\<lambda>x. fmul x (Fin 100)) (pct_change vs) ! j = fmul (fdiv (fsub (Fin v) (Fin w)) (Fin w)) (Fin 100)"
    using pct_change_nth [OF j] v w j by (simp add: length_pct_change pct_of_finite del: fdiv.simps fsub.simps fmul.simps)
  have "w \<noteq> 0 \<Longrightarrow> fmul (fdiv (fsub (Fin v) (Fin w)) (Fin w)) (Fin 100) = Fin ((v - w) / w * 100)"
    by simp
  with v w d p show ?thesis by auto
qed


lemma fillna0_simps:
  "sessions (fillna0 r) = sessions r"
  "transactions (fillna0 r) = transactions r"
  "QTY (fillna0 r) = QTY r"
  "key (fillna0 r) = key r"
  "ECR (fillna0 r) = (if ECR r = NaN then Fin 0 else ECR r)"
  by (simp_all add: fillna0_def)

lemma kept_ECR_finite:
  assumes "l \<in> set (filter all_nonzero (map fillna0 (last_three_grouped sc)))"
  shows "\<exists>q. ECR l = Fin q"
proof -
  from assms obtain g where g: "g \<in> set (last_three_grouped sc)" and l: "l = fillna0 g"
    and nz: "all_nonzero l" by auto
  from g have "ECR g = true_div (transactions g) (sessions g)"
    by (auto simp: last_three_grouped_def Let_def with_ECR_simps)
  moreover from nz l have "sessions g \<noteq> 0" by (simp add: all_nonzero_def fillna0_simps)
  ultimately show ?thesis using l by (simp add: true_div_cases fillna0_simps)
qed

lemma merged_left:
  "(l, a) \<in> set (merge_inner left right) \<Longrightarrow> l \<in> set left"
  by (auto simp: merge_inner_def)

lemma merged_ECR_finite:
  "(l, a) \<in> set (merged_last_three sc adds) \<Longrightarrow> \<exists>q. ECR l = Fin q"
  unfolding merged_last_three_def by (blast dest: merged_left kept_ECR_finite)

lemma mtm_rows_eq:
  "mtm_rows (create_mtm_compare sc adds) =
     change_rows ''sessions'' (map (\<lambda>(l, a). to_float (sessions l)) (merged_last_three sc adds)) @
     change_rows ''addsToCart'' (map (\<lambda>(l, a). to_float a) (merged_last_three sc adds)) @
     change_rows ''transactions'' (map (\<lambda>(l, a). to_float (transactions l)) (merged_last_three sc adds)) @
     change_rows ''QTY'' (map (\<lambda>(l, a). to_float (QTY l)) (merged_last_three sc adds)) @
     change_rows ''ECR'' (map (\<lambda>(l, a). ECR l) (merged_last_three sc adds))"
  and mtm_columns_eq:
  "mtm_columns (create_mtm_compare sc adds) = map (\<lambda>(l, a). key l) (merged_last_three sc adds)"
  by (simp_all add: create_mtm_compare_def Let_def)

lemma mtm_lookup:
  fixes v1 v2 v3 v4 v5 :: "fval list"
  defines "tbl \<equiv> change_rows ''sessions'' v1 @ change_rows ''addsToCart'' v2 @
     change_rows ''transactions'' v3 @ change_rows ''QTY'' v4 @ change_rows ''ECR'' v5"
  shows "map_of tbl ''sessions'' = Some v1"
    "map_of tbl ''sessions_abs_change'' = Some (diff v1)"
    "map_of tbl ''sessions_pct_change'' = Some (map (\<lambda>x. fmul x (Fin 100)) (pct_change v1))"
    "map_of tbl ''addsToCart'' = Some v2"
    "map_of tbl ''addsToCart_abs_change'' = Some (diff v2)"
    "map_of tbl ''addsToCart_pct_change'' = Some (map (\<lambda>x. fmul x (Fin 100)) (pct_change v2))"
    "map_of tbl ''transactions'' = Some v3"
    "map_of tbl ''transactions_abs_change'' = Some (diff v3)"
    "map_of tbl ''transactions_pct_change'' = Some (map (\<lambda>x. fmul x (Fin 100)) (pct_change v3))"
    "map_of tbl ''QTY'' = Some v4"
    "map_of tbl ''QTY_abs_change'' = Some (diff v4)"
    "map_of tbl ''QTY_pct_change'' = Some (map (\<lambda>x. fmul x (Fin 100)) (pct_change v4))"
    "map_of tbl ''ECR'' = Some v5"
    "map_of tbl ''ECR_abs_change'' = Some (diff v5)"
    "map_of tbl ''ECR_pct_change'' = Some (map (\<lambda>x. fmul x (Fin 100)) (pct_change v5))"
  by (simp_all add: tbl_def change_rows_def)


lemma column_block:
  assumes fin: "\<forall>x\<in>set vs. \<exists>q. x = Fin q" and len: "length vs = n"
  shows "length vs = n \<and> length (diff vs) = n \<and> length (map (\<lambda>x. fmul x (Fin 100)) (pct_change vs)) = n
     \<and> (0 < n \<longrightarrow> diff vs ! 0 = NaN \<and> map (\<lambda>x. fmul x (Fin 100)) (pct_change vs) ! 0 = NaN)
     \<and> (\<forall>j. 0 < j \<and> j < n \<longrightarrow>
          (\<exists>v w. vs ! j = Fin v \<and> vs ! (j - 1) = Fin w \<and> diff vs ! j = Fin (v - w)
             \<and> map (\<lambda>x. fmul x (Fin 100)) (pct_change vs) ! j = fmul (fdiv (fsub (Fin v) (Fin w)) (Fin w)) (Fin 100)
             \<and> (w \<noteq> 0 \<longrightarrow> map (\<lambda>x. fmul x (Fin 100)) (pct_change vs) ! j = Fin ((v - w) / w * 100))))"
proof -
  have first: "0 < n \<Longrightarrow> diff vs ! 0 = NaN \<and> map (\<lambda>x. fmul x (Fin 100)) (pct_change vs) ! 0 = NaN"
    using len by (cases vs) (simp_all add: diff_def pct_change_def)
  have later: "\<And>j. 0 < j \<Longrightarrow> j < n \<Longrightarrow>
          (\<exists>v w. vs ! j = Fin v \<and> vs ! (j - 1) = Fin w \<and> diff vs ! j = Fin (v - w)
             \<and> map (\<lambda>x. fmul x (Fin 100)) (pct_change vs) ! j = fmul (fdiv (fsub (Fin v) (Fin w)) (Fin w)) (Fin 100)
             \<and> (w \<noteq> 0 \<longrightarrow> map (\<lambda>x. fmul x (Fin 100)) (pct_change vs) ! j = Fin ((v - w) / w * 100)))"
    using column_changes [OF fin] len by blast
  from first later len show ?thesis
    by (simp add: length_diff length_pct_change)
qed

lemma block_exists:
  assumes l1: "map_of R c = Some vs"
    and l2: "map_of R (c @ ''_abs_change'') = Some (diff vs)"
    and l3: "map_of R (c @ ''_pct_change'') = Some (map (\<lambda>x. fmul x (Fin 100)) (pct_change vs))"
    and fin: "\<forall>x\<in>set vs. \<exists>q. x = Fin q" and len: "length vs = n"
  shows "\<exists>vals a p.
      map_of R c = Some vals
    \<and> map_of R (c @ ''_abs_change'') = Some a
    \<and> map_of R (c @ ''_pct_change'') = Some p
    \<and> length vals = n \<and> length a = n \<and> length p = n
    \<and> (0 < n \<longrightarrow> a ! 0 = NaN \<and> p ! 0 = NaN)
    \<and> (\<forall>j. 0 < j \<and> j < n \<longrightarrow>
          (\<exists>v w. vals ! j = Fin v \<and> vals ! (j - 1) = Fin w \<and> a ! j = Fin (v - w)
             \<and> p ! j = fmul (fdiv (fsub (Fin v) (Fin w)) (Fin w)) (Fin 100)
             \<and> (w \<noteq> 0 \<longrightarrow> p ! j = Fin ((v - w) / w * 100))))"
  apply (rule exI [of _ vs])
  apply (rule exI [of _ "diff vs"])
  apply (rule exI [of _ "map (\<lambda>x. fmul x (Fin 100)) (pct_change vs)"])
  apply (intro conjI l1 l2 l3)
  using column_block [OF fin len] apply blast+
  done




section \<open>The month domain\<close>

lemma apply_each_Inr:
  "apply_each f xs = Inr ys \<Longrightarrow> list_all2 (\<lambda>x y. f x = Inr y) xs ys"
  by (induction xs arbitrary: ys) (auto split: sum.splits)

lemma apply_each_Inl_iff:
  "(\<exists>e. apply_each f xs = Inl e) \<longleftrightarrow> (\<exists>x\<in>set xs. \<exists>e. f x = Inl e)"
  by (induction xs) (auto split: sum.splits)

lemma set_unique: "set (unique xs) = set xs"
  by (simp add: unique_def)

lemma distinct_unique: "distinct (unique xs)"
  by (simp add: unique_def)

lemma categorical_Some:
  "categorical cats v = Some m \<longleftrightarrow> v = Some m \<and> m \<in> set cats"
  by (auto simp: categorical_def split: option.splits)

lemma rows_filter_last_months:
  "set (rows (filter_last_months df)) \<subseteq> set (rows df)"
  and cats_filter_last_months: "month_categories (filter_last_months df) = month_categories df"
  by (auto simp: filter_last_months_def Let_def)

lemma sum_list_nonzero_nonempty: "sum_list (map f xs) \<noteq> (0::int) \<Longrightarrow> xs \<noteq> []"
  by auto

lemma mtm_columns_observed:
  assumes "m \<in> set (mtm_columns (create_mtm_compare sc adds))"
  shows "\<exists>r\<in>set (rows sc). month_name r = Some m"
proof -
  from assms obtain l a where la: "(l, a) \<in> set (merged_last_three sc adds)" and m: "m = key l"
    by (auto simp: mtm_columns_eq)
  from la have "l \<in> set (filter all_nonzero (map fillna0 (last_three_grouped sc)))"
    unfolding merged_last_three_def by (rule merged_left)
  then obtain g where g: "g \<in> set (last_three_grouped sc)" and l: "l = fillna0 g"
    and nz: "all_nonzero l" by auto
  from nz l have s: "sessions g \<noteq> 0" by (simp add: all_nonzero_def fillna0_simps)
  from g obtain m' where
    g': "g = with_ECR (agg_sum m' (filter (\<lambda>r. month_name r = Some m') (rows (filter_last_months sc))))"
    by (auto simp: last_three_grouped_def Let_def)
  from s g' have "filter (\<lambda>r. month_name r = Some m') (rows (filter_last_months sc)) \<noteq> []"
    by (auto simp: with_ECR_simps agg_sum_simps)
  then obtain r where "r \<in> set (rows (filter_last_months sc))" "month_name r = Some m'"
    by (metis (mono_tags, lifting) filter_False)
  moreover have "m = m'" using m l g' by (simp add: fillna0_simps with_ECR_simps agg_sum_simps)
  ultimately show ?thesis using rows_filter_last_months by blast
qed

lemma create_month_device_rows:
  assumes "r' \<in> set (rows (fst (create_month_device md)))" "month_name r' = Some m"
  shows "\<exists>r\<in>set (rows md). month_name r = Some m"
  using assms by (auto simp: create_month_device_def Let_def categorical_Some)

lemma clean_tables_Inr:
  assumes "clean_tables session_cts cart_adds = Inr (sc, adds)"
  shows "\<exists>years months cart_months.
      list_all2 (\<lambda>r m. map_month (month_text r) = Inr m) session_cts months
    \<and> list_all2 (\<lambda>r m. map_month (str_int (dim_month r)) = Inr m) cart_adds cart_months
    \<and> length years = length session_cts
    \<and> sc = \<lparr>month_categories = unique months,
             rows = map (cleaned_session (unique months)) (zip session_cts (zip years months))\<rparr>
    \<and> adds = \<lparr>cart_month_categories = unique months,
               cart_rows = map (cleaned_cart (unique months)) (zip cart_adds cart_months)\<rparr>"
proof -
  from assms obtain year_texts years months cart_months where
    1: "apply_each year_text session_cts = Inr year_texts"
    and 2: "apply_each astype_int year_texts = Inr years"
    and 3: "apply_each map_month (map month_text session_cts) = Inr months"
    and 4: "apply_each map_month (map (\<lambda>r. str_int (dim_month r)) cart_adds) = Inr cart_months"
    and sc: "sc = \<lparr>month_categories = unique months,
             rows = map (cleaned_session (unique months)) (zip session_cts (zip years months))\<rparr>"
    and adds: "adds = \<lparr>cart_month_categories = unique months,
               cart_rows = map (cleaned_cart (unique months)) (zip cart_adds cart_months)\<rparr>"
    by (auto simp: clean_tables_def Let_def split: sum.splits)
  from 1 2 have "length years = length session_cts"
    by (auto dest!: apply_each_Inr list_all2_lengthD)
  moreover from 3 have "list_all2 (\<lambda>r m. map_month (month_text r) = Inr m) session_cts months"
    by (auto dest!: apply_each_Inr simp: list_all2_map1)
  moreover from 4 have "list_all2 (\<lambda>r m. map_month (str_int (dim_month r)) = Inr m) cart_adds cart_months"
    by (auto dest!: apply_each_Inr simp: list_all2_map1)
  ultimately show ?thesis using sc adds by blast
qed

lemma generate_excel_Inr:
  assumes "generate_excel argsort session_counts adds_to_cart = Inr wb"
  shows "\<exists>sc adds. clean_tables session_counts adds_to_cart = Inr (sc, adds)
     \<and> month_device_agg wb = snd (create_month_device sc)
     \<and> mtm_compare wb = create_mtm_compare (fst (create_month_device sc)) adds
     \<and> browser wb = top_browsers argsort (fst (create_month_device sc))
     \<and> month_device_with_totals wb = create_month_device_totals (snd (create_month_device sc))"
  using assms by (auto simp: generate_excel_def split: sum.splits prod.splits)

lemma months_of_sessions:
  assumes "list_all2 (\<lambda>r m. map_month (month_text r) = Inr m) session_cts months"
  shows "set months = {m. \<exists>r\<in>set session_cts. map_month (month_text r) = Inr m}"
  using assms by (induction rule: list_all2_induct) auto

lemma cleaned_session_month:
  assumes "r \<in> set (map (cleaned_session cats) (zip session_cts (zip years months)))"
    and "month_name r = Some m"
  shows "m \<in> set cats"
  using assms by (auto simp: cleaned_session_def categorical_Some)

text \<open>
  Claim C2. When the pipeline succeeds, the month categories of the cleaned session table
  are exactly the month names of the session rows, and every month heading a column of
  the month-to-month comparison is one of them. A month name that only the cart-add file
  has is therefore never a column of the comparison.
\<close>

theorem mtm_months_from_sessions:
  assumes "generate_excel argsort session_counts adds_to_cart = Inr wb"
  shows "\<exists>sc adds. clean_tables session_counts adds_to_cart = Inr (sc, adds)
     \<and> set (month_categories sc) = {m. \<exists>r\<in>set session_counts. map_month (month_text r) = Inr m}
     \<and> set (mtm_columns (mtm_compare wb)) \<subseteq> set (month_categories sc)"
proof -
  from generate_excel_Inr [OF assms] obtain sc adds where
    clean: "clean_tables session_counts adds_to_cart = Inr (sc, adds)"
    and mtm: "mtm_compare wb = create_mtm_compare (fst (create_month_device sc)) adds"
    by blast
  from clean_tables_Inr [OF clean] obtain years months where
    months: "list_all2 (\<lambda>r m. map_month (month_text r) = Inr m) session_counts months"
    and sc: "sc = \<lparr>month_categories = unique months,
             rows = map (cleaned_session (unique months)) (zip session_counts (zip years months))\<rparr>"
    by blast
  have dom: "set (month_categories sc) = {m. \<exists>r\<in>set session_counts. map_month (month_text r) = Inr m}"
    using months_of_sessions [OF months] by (simp add: sc set_unique)
  have "m \<in> set (month_categories sc)" if "m \<in> set (mtm_columns (mtm_compare wb))" for m
  proof -
    from that mtm obtain r' where "r' \<in> set (rows (fst (create_month_device sc)))" "month_name r' = Some m"
      using mtm_columns_observed by metis
    then obtain r where "r \<in> set (rows sc)" "month_name r = Some m"
      using create_month_device_rows by blast
    then show ?thesis using cleaned_session_month by (simp add: sc)
  qed
  with clean dom show ?thesis by blast
qed

theorem mtm_months_from_sessions_witness:
  "\<exists>wb sc adds. generate_excel insertion_argsort summer_csv summer_cart_csv = Inr wb
     \<and> clean_tables summer_csv summer_cart_csv = Inr (sc, adds)
     \<and> month_categories sc = [''July'', ''August'']
     \<and> set (mtm_columns (mtm_compare wb)) \<subseteq> set (month_categories sc)
     \<and> mtm_columns (mtm_compare wb) = [''July'', ''August'']
     \<and> map cart_dim_month (cart_rows adds) = [''7'', ''8'', ''9'']"
proof -
  have "\<not> isl (generate_excel insertion_argsort summer_csv summer_cart_csv)"
    by code_simp
  then obtain wb where wb: "generate_excel insertion_argsort summer_csv summer_cart_csv = Inr wb"
    by (cases "generate_excel insertion_argsort summer_csv summer_cart_csv") auto
  from mtm_months_from_sessions [OF wb] obtain sc adds where
    clean: "clean_tables summer_csv summer_cart_csv = Inr (sc, adds)"
    and sub: "set (mtm_columns (mtm_compare wb)) \<subseteq> set (month_categories sc)"
    by blast
  have eval: "clean_tables summer_csv summer_cart_csv = Inr (summer_frame, summer_cart)"
    by code_simp
  with clean have sc: "sc = summer_frame" and adds: "adds = summer_cart" by simp_all
  have cats: "month_categories summer_frame = [''July'', ''August'']"
    by (simp add: summer_frame_def)
  have cart: "map cart_dim_month (cart_rows summer_cart) = [''7'', ''8'', ''9'']"
    by (simp add: summer_cart_def)
  have "mtm_columns (create_mtm_compare (fst (create_month_device summer_frame)) summer_cart) = [''July'', ''August'']"
    by code_simp
  moreover have "mtm_compare wb = create_mtm_compare (fst (create_month_device summer_frame)) summer_cart"
    using generate_excel_Inr [OF wb] by (auto simp: eval)
  ultimately have cols: "mtm_columns (mtm_compare wb) = [''July'', ''August'']" by simp
  from wb clean sub cols cats cart show ?thesis
    unfolding sc adds
    by (intro exI [of _ wb] exI [of _ summer_frame] exI [of _ summer_cart] conjI) assumption+
qed

section \<open>The month-and-device table\<close>

lemma sorted_wrt_product:
  assumes "sorted_wrt P xs" "sorted_wrt Q ys"
  shows "sorted_wrt (\<lambda>a b. P (fst a) (fst b) \<or> (fst a = fst b \<and> Q (snd a) (snd b))) (List.product xs ys)"
proof -
  have same: "sorted_wrt (\<lambda>x y. P a a \<or> Q x y) ys" for a
    using assms(2) by (rule sorted_wrt_mono_rel [rotated]) simp
  from assms(1) show ?thesis
    by (induction xs) (auto simp: sorted_wrt_append sorted_wrt_map same)
qed

lemma july_to_june_facts:
  "distinct july_to_june"
  "sorted_wrt (\<lambda>a b. index_of a july_to_june < index_of b july_to_june) july_to_june"
  by code_simp+

lemma month_device_keys:
  "map key (md_rows (snd (create_month_device md))) =
     List.product july_to_june (sort (remdups (map dim_deviceCategory (rows md))))"
  by (simp add: create_month_device_def Let_def with_ECR_simps agg_sum_simps comp_def)

lemma strict_sorted_devices: "sorted_wrt (<) (sort (remdups (xs :: string list)))"
  by (simp add: strict_sorted_iff)

lemma month_device_row_sums:
  assumes "r \<in> set (md_rows (snd (create_month_device md)))"
  shows "\<exists>members. members = filter (\<lambda>x. month_name x = Some (fst (key r)) \<and> dim_deviceCategory x = snd (key r)) (rows md)
     \<and> sessions r = sum_list (map sessions members)
     \<and> transactions r = sum_list (map transactions members)
     \<and> QTY r = sum_list (map QTY members)"
proof -
  from assms obtain k where k: "k \<in> set (List.product july_to_june (sort (remdups (map dim_deviceCategory (rows md)))))"
    and r: "r = with_ECR (agg_sum k (filter (\<lambda>x. month_name x = Some (fst k) \<and> dim_deviceCategory x = snd k)
              (map (\<lambda>x. x\<lparr>month_name := categorical july_to_june (month_name x)\<rparr>) (rows md))))"
    by (auto simp: create_month_device_def Let_def)
  from k have m: "fst k \<in> set july_to_june" by auto
  have f: "filter (\<lambda>x. month_name x = Some (fst k) \<and> dim_deviceCategory x = snd k)
              (map (\<lambda>x. x\<lparr>month_name := categorical july_to_june (month_name x)\<rparr>) (rows md))
         = map (\<lambda>x. x\<lparr>month_name := categorical july_to_june (month_name x)\<rparr>)
             (filter (\<lambda>x. month_name x = Some (fst k) \<and> dim_deviceCategory x = snd k) (rows md))"
    using m by (simp add: filter_map comp_def categorical_Some)
  show ?thesis
    by (simp add: r f with_ECR_simps agg_sum_simps comp_def)
qed

text \<open>
  Claim C1, as the program has it. The month-and-device table has exactly one row for
  every pair of a month of the fixed list July, August, ..., June and a device category
  of the session table, whether the pair occurs in a session row or not. The rows are
  ordered by the month's place in that fixed list, then by device category, and each
  holds the sums over the session rows of its pair (zero when there is none).
\<close>

theorem month_device_rows:
  "distinct (map key (md_rows (snd (create_month_device md))))
   \<and> set (map key (md_rows (snd (create_month_device md)))) = set july_to_june \<times> set (map dim_deviceCategory (rows md))
   \<and> sorted_wrt (\<lambda>a b. index_of (fst a) july_to_june < index_of (fst b) july_to_june \<or> (fst a = fst b \<and> snd a < snd b))
        (map key (md_rows (snd (create_month_device md))))
   \<and> (\<forall>r\<in>set (md_rows (snd (create_month_device md))).
        sessions r = sum_list (map sessions (filter (\<lambda>x. month_name x = Some (fst (key r)) \<and> dim_deviceCategory x = snd (key r)) (rows md)))
      \<and> transactions r = sum_list (map transactions (filter (\<lambda>x. month_name x = Some (fst (key r)) \<and> dim_deviceCategory x = snd (key r)) (rows md)))
      \<and> QTY r = sum_list (map QTY (filter (\<lambda>x. month_name x = Some (fst (key r)) \<and> dim_deviceCategory x = snd (key r)) (rows md))))"
proof (intro conjI ballI)
  show "distinct (map key (md_rows (snd (create_month_device md))))"
    unfolding month_device_keys by (simp add: distinct_product july_to_june_facts)
  show "set (map key (md_rows (snd (create_month_device md)))) = set july_to_june \<times> set (map dim_deviceCategory (rows md))"
    unfolding month_device_keys by simp
  show "sorted_wrt (\<lambda>a b. index_of (fst a) july_to_june < index_of (fst b) july_to_june \<or> (fst a = fst b \<and> snd a < snd b))
        (map key (md_rows (snd (create_month_device md))))"
    unfolding month_device_keys
    by (rule sorted_wrt_product [OF july_to_june_facts(2) strict_sorted_devices])
next
  fix r assume "r \<in> set (md_rows (snd (create_month_device md)))"
  from month_device_row_sums [OF this]
  show "sessions r = sum_list (map sessions (filter (\<lambda>x. month_name x = Some (fst (key r)) \<and> dim_deviceCategory x = snd (key r)) (rows md)))"
    and "transactions r = sum_list (map transactions (filter (\<lambda>x. month_name x = Some (fst (key r)) \<and> dim_deviceCategory x = snd (key r)) (rows md)))"
    and "QTY r = sum_list (map QTY (filter (\<lambda>x. month_name x = Some (fst (key r)) \<and> dim_deviceCategory x = snd (key r)) (rows md)))"
    by simp_all
qed

text \<open>
  Claim C1 as stated fails. A session file of one January row followed by one July row
  has the first-seen month order January, July and two pairs of month and device; the
  table has twelve rows, and July comes first.
\<close>

theorem month_device_order_counterexample:
  "clean_tables january_first_csv [] = Inr (january_first_frame, \<lparr>cart_month_categories = [''January'', ''July''], cart_rows = []\<rparr>)
   \<and> map (\<lambda>r. (month_name r, dim_deviceCategory r)) (rows january_first_frame)
       = [(Some ''January'', ''Desktop''), (Some ''July'', ''Desktop'')]
   \<and> map key (md_rows (snd (create_month_device january_first_frame)))
       = [(''July'', ''Desktop''), (''August'', ''Desktop''), (''September'', ''Desktop''),
          (''October'', ''Desktop''), (''November'', ''Desktop''), (''December'', ''Desktop''),
          (''January'', ''Desktop''), (''February'', ''Desktop''), (''March'', ''Desktop''),
          (''April'', ''Desktop''), (''May'', ''Desktop''), (''June'', ''Desktop'')]
   \<and> map key (md_rows (snd (create_month_device january_first_frame)))
       \<noteq> [(''January'', ''Desktop''), (''July'', ''Desktop'')]"
  by code_simp


theorem month_device_rows_witness:
  "md_rows (snd (create_month_device january_first_frame)) ! 6 \<in> set (md_rows (snd (create_month_device january_first_frame)))
   \<and> key (md_rows (snd (create_month_device january_first_frame)) ! 6) = (''January'', ''Desktop'')
   \<and> sessions (md_rows (snd (create_month_device january_first_frame)) ! 6) = 10
   \<and> length (md_rows (snd (create_month_device january_first_frame))) = 12"
proof -
  define r0 where "r0 = md_rows (snd (create_month_device january_first_frame)) ! 6"
  have mem: "r0 \<in> set (md_rows (snd (create_month_device january_first_frame)))"
    unfolding r0_def by code_simp
  have k: "key r0 = (''January'', ''Desktop'')"
    unfolding r0_def by code_simp
  have n: "length (md_rows (snd (create_month_device january_first_frame))) = 12"
    by code_simp
  from month_device_rows [of january_first_frame, THEN conjunct2, THEN conjunct2, THEN conjunct2, THEN bspec, OF mem]
  have "sessions r0 = sum_list (map sessions (filter (\<lambda>x. month_name x = Some (fst (key r0)) \<and> dim_deviceCategory x = snd (key r0)) (rows january_first_frame)))"
    by (rule conjunct1)
  also have "\<dots> = 10"
    unfolding k by code_simp
  finally show ?thesis using mem k n unfolding r0_def by (intro conjI) assumption+
qed

section \<open>The totals\<close>

lemma with_device_order_simps:
  "sessions (with_device_order order r) = sessions r"
  "transactions (with_device_order order r) = transactions r"
  "QTY (with_device_order order r) = QTY r"
  "ECR (with_device_order order r) = ECR r"
  "key (with_device_order order r) = (fst (key r), categorical order (Some (snd (key r))))"
  by (simp_all add: with_device_order_def)

lemma month_total_simps:
  "sessions (month_total month_device m) = sum_list (map sessions (filter (\<lambda>r. fst (key r) = m) month_device))"
  "transactions (month_total month_device m) = sum_list (map transactions (filter (\<lambda>r. fst (key r) = m) month_device))"
  "QTY (month_total month_device m) = sum_list (map QTY (filter (\<lambda>r. fst (key r) = m) month_device))"
  "ECR (month_total month_device m) = nansum (map ECR (filter (\<lambda>r. fst (key r) = m) month_device))"
  "key (month_total month_device m) = (m, ''Total'')"
  by (simp_all add: month_total_def Let_def)

lemma Total_in_device_order: "categorical device_order (Some ''Total'') = Some ''Total''"
  by (simp add: categorical_def device_order_def)

lemma categorical_Total: "categorical device_order (Some d) = Some ''Total'' \<longleftrightarrow> d = ''Total''"
  by (auto simp: categorical_Some Total_in_device_order) (simp add: device_order_def)

lemma set_totals:
  "set (create_month_device_totals month_device) =
     with_device_order device_order ` (set (md_rows month_device) \<union> month_total (md_rows month_device) ` set (md_categories month_device))"
  by (simp add: create_month_device_totals_def Let_def image_Un image_image)

lemma total_row_member:
  assumes "m \<in> set (md_categories month_device)"
  shows "with_device_order device_order (month_total (md_rows month_device) m) \<in> set (create_month_device_totals month_device)"
  using assms by (auto simp: set_totals)

lemma month_device_categories:
  "md_categories (snd (create_month_device md)) = july_to_june"
  by (simp add: create_month_device_def Let_def)

lemma month_device_key_member:
  assumes "r \<in> set (md_rows (snd (create_month_device md)))"
  shows "fst (key r) \<in> set july_to_june" "snd (key r) \<in> set (map dim_deviceCategory (rows md))"
proof -
  from assms have "key r \<in> set (map key (md_rows (snd (create_month_device md))))" by simp
  then have "key r \<in> set july_to_june \<times> set (map dim_deviceCategory (rows md))"
    unfolding month_device_keys by simp
  then show "fst (key r) \<in> set july_to_june" "snd (key r) \<in> set (map dim_deviceCategory (rows md))"
    by (auto simp: mem_Times_iff)
qed

lemma total_rows_unique:
  assumes no_total: "''Total'' \<notin> set (map dim_deviceCategory (rows md))"
    and t: "t \<in> set (create_month_device_totals (snd (create_month_device md)))"
    and k: "key t = (m, Some ''Total'')"
  shows "t = with_device_order device_order (month_total (md_rows (snd (create_month_device md))) m)"
proof -
  from t consider r where "r \<in> set (md_rows (snd (create_month_device md)))" "t = with_device_order device_order r"
    | m' where "t = with_device_order device_order (month_total (md_rows (snd (create_month_device md))) m')"
    by (auto simp: set_totals)
  then show ?thesis
  proof cases
    case 1
    with k have "snd (key r) = ''Total''"
      by (simp add: with_device_order_simps categorical_Total)
    with month_device_key_member(2) [OF 1(1)] no_total show ?thesis by simp
  next
    case 2
    with k have "m' = m" by (simp add: with_device_order_simps month_total_simps)
    with 2 show ?thesis by simp
  qed
qed

lemma sum_list_filter_insort_key:
  "sum_list (map h (filter P (insort_key f x xs))) = sum_list (map (h :: 'a \<Rightarrow> int) (filter P (x # xs)))"
  by (induction xs) auto

lemma sum_list_filter_sort_key:
  "sum_list (map h (filter P (sort_key f xs))) = sum_list (map (h :: 'a \<Rightarrow> int) (filter P xs))"
  by (induction xs) (simp_all add: sum_list_filter_insort_key)

lemma non_total_rows_sum:
  fixes h :: "(string \<times> string option) agg_row \<Rightarrow> int"
  assumes no_total: "''Total'' \<notin> set (map dim_deviceCategory (rows md))"
    and h: "\<And>r. h (with_device_order device_order r) = g r"
  shows "sum_list (map h (filter (\<lambda>t. fst (key t) = m \<and> snd (key t) \<noteq> Some ''Total'')
            (create_month_device_totals (snd (create_month_device md)))))
       = sum_list (map g (filter (\<lambda>r. fst (key r) = m) (md_rows (snd (create_month_device md)))))"
proof -
  let ?rows = "md_rows (snd (create_month_device md))"
  let ?P = "\<lambda>t :: (string \<times> string option) agg_row. fst (key t) = m \<and> snd (key t) \<noteq> Some ''Total''"
  have "snd (key r) \<noteq> ''Total''" if "r \<in> set ?rows" for r
    using month_device_key_member(2) [OF that] no_total by metis
  then have a: "filter (?P \<circ> with_device_order device_order) ?rows = filter (\<lambda>r. fst (key r) = m) ?rows"
    by (intro filter_cong refl) (auto simp: with_device_order_simps categorical_Total)
  have b: "filter (?P \<circ> with_device_order device_order \<circ> month_total ?rows) cats = []" for cats
    by (simp add: filter_empty_conv with_device_order_simps month_total_simps Total_in_device_order)
  have "sum_list (map h (filter ?P (create_month_device_totals (snd (create_month_device md)))))
      = sum_list (map h (filter ?P (map (with_device_order device_order)
          (?rows @ map (month_total ?rows) (md_categories (snd (create_month_device md)))))))"
    by (simp only: create_month_device_totals_def Let_def sum_list_filter_sort_key)
  also have "\<dots> = sum_list (map h (map (with_device_order device_order) (filter (\<lambda>r. fst (key r) = m) ?rows)))"
    by (simp only: filter_map map_append filter_append a b append_Nil2 list.map)
  also have "\<dots> = sum_list (map g (filter (\<lambda>r. fst (key r) = m) ?rows))"
    by (simp add: comp_def h)
  finally show ?thesis .
qed

lemma foldl_fadd_Fin: "foldl fadd (Fin a) (map Fin qs) = Fin (a + sum_list qs)"
  by (induction qs arbitrary: a) (simp_all add: add.assoc)

lemma nansum_finite: "nansum (map Fin qs) = Fin (sum_list qs)"
  using foldl_fadd_Fin [of 0 qs] by (simp add: nansum_def filter_map comp_def)

text \<open>
  Claim C5. For a month of a row of the month-and-device table, the augmented table has
  a row of that month with device category Total whose sessions, transactions and QTY
  are the sums of these fields over the month's rows of the month-and-device table. When
  no device category of the session table is itself called Total, this holds of every
  Total row of the month, and the sums are those over the month's rows of the augmented
  table whose category is not Total.
\<close>

theorem total_row_sums:
  assumes agg: "agg = snd (create_month_device md)"
    and out: "out = create_month_device_totals agg"
    and r0: "r0 \<in> set (md_rows agg)"
    and m: "m = fst (key r0)"
  shows "(\<exists>t\<in>set out. key t = (m, Some ''Total'')
            \<and> sessions t = sum_list (map sessions (filter (\<lambda>r. fst (key r) = m) (md_rows agg)))
            \<and> transactions t = sum_list (map transactions (filter (\<lambda>r. fst (key r) = m) (md_rows agg)))
            \<and> QTY t = sum_list (map QTY (filter (\<lambda>r. fst (key r) = m) (md_rows agg))))
       \<and> (''Total'' \<notin> set (map dim_deviceCategory (rows md)) \<longrightarrow>
            (\<forall>t\<in>set out. key t = (m, Some ''Total'') \<longrightarrow>
                sessions t = sum_list (map sessions (filter (\<lambda>r. fst (key r) = m \<and> snd (key r) \<noteq> Some ''Total'') out))
              \<and> transactions t = sum_list (map transactions (filter (\<lambda>r. fst (key r) = m \<and> snd (key r) \<noteq> Some ''Total'') out))
              \<and> QTY t = sum_list (map QTY (filter (\<lambda>r. fst (key r) = m \<and> snd (key r) \<noteq> Some ''Total'') out))))"
proof (intro conjI impI ballI)
  let ?t = "with_device_order device_order (month_total (md_rows agg) m)"
  have "m \<in> set (md_categories agg)"
    using month_device_key_member(1) r0 by (simp add: agg m month_device_categories)
  then have "?t \<in> set out" unfolding out by (rule total_row_member)
  moreover have "key ?t = (m, Some ''Total'')"
    by (simp add: with_device_order_simps month_total_simps Total_in_device_order)
  ultimately show "\<exists>t\<in>set out. key t = (m, Some ''Total'')
            \<and> sessions t = sum_list (map sessions (filter (\<lambda>r. fst (key r) = m) (md_rows agg)))
            \<and> transactions t = sum_list (map transactions (filter (\<lambda>r. fst (key r) = m) (md_rows agg)))
            \<and> QTY t = sum_list (map QTY (filter (\<lambda>r. fst (key r) = m) (md_rows agg)))"
    by (intro bexI [of _ ?t]) (simp_all add: with_device_order_simps month_total_simps)
next
  fix t
  assume no_total: "''Total'' \<notin> set (map dim_deviceCategory (rows md))"
    and t: "t \<in> set out" and k: "key t = (m, Some ''Total'')"
  have eq: "t = with_device_order device_order (month_total (md_rows agg) m)"
    using total_rows_unique [OF no_total _ k] t by (simp add: out agg)
  have "sum_list (map sessions (filter (\<lambda>r. fst (key r) = m \<and> snd (key r) \<noteq> Some ''Total'') out))
      = sum_list (map sessions (filter (\<lambda>r. fst (key r) = m) (md_rows agg)))"
    unfolding out agg by (rule non_total_rows_sum [OF no_total]) (simp add: with_device_order_simps)
  then show "sessions t = sum_list (map sessions (filter (\<lambda>r. fst (key r) = m \<and> snd (key r) \<noteq> Some ''Total'') out))"
    by (simp add: eq with_device_order_simps month_total_simps)
  have "sum_list (map transactions (filter (\<lambda>r. fst (key r) = m \<and> snd (key r) \<noteq> Some ''Total'') out))
      = sum_list (map transactions (filter (\<lambda>r. fst (key r) = m) (md_rows agg)))"
    unfolding out agg by (rule non_total_rows_sum [OF no_total]) (simp add: with_device_order_simps)
  then show "transactions t = sum_list (map transactions (filter (\<lambda>r. fst (key r) = m \<and> snd (key r) \<noteq> Some ''Total'') out))"
    by (simp add: eq with_device_order_simps month_total_simps)
  have "sum_list (map QTY (filter (\<lambda>r. fst (key r) = m \<and> snd (key r) \<noteq> Some ''Total'') out))
      = sum_list (map QTY (filter (\<lambda>r. fst (key r) = m) (md_rows agg)))"
    unfolding out agg by (rule non_total_rows_sum [OF no_total]) (simp add: with_device_order_simps)
  then show "QTY t = sum_list (map QTY (filter (\<lambda>r. fst (key r) = m \<and> snd (key r) \<noteq> Some ''Total'') out))"
    by (simp add: eq with_device_order_simps month_total_simps)
qed

theorem total_row_sums_witness:
  "md_rows (snd (create_month_device two_device_frame)) ! 0 \<in> set (md_rows (snd (create_month_device two_device_frame)))
   \<and> fst (key (md_rows (snd (create_month_device two_device_frame)) ! 0)) = ''July''
   \<and> ''Total'' \<notin> set (map dim_deviceCategory (rows two_device_frame))
   \<and> (\<exists>t\<in>set (create_month_device_totals (snd (create_month_device two_device_frame))).
         key t = (''July'', Some ''Total'') \<and> sessions t = 150 \<and> transactions t = 20 \<and> QTY t = 7
       \<and> sessions t = sum_list (map sessions (filter (\<lambda>r. fst (key r) = ''July'' \<and> snd (key r) \<noteq> Some ''Total'')
            (create_month_device_totals (snd (create_month_device two_device_frame))))))"
proof -
  define agg where "agg = snd (create_month_device two_device_frame)"
  define out where "out = create_month_device_totals agg"
  have mem: "md_rows agg ! 0 \<in> set (md_rows agg)" unfolding agg_def by code_simp
  have july: "fst (key (md_rows agg ! 0)) = ''July''" unfolding agg_def by code_simp
  have no_total: "''Total'' \<notin> set (map dim_deviceCategory (rows two_device_frame))" by code_simp
  have sums: "sum_list (map sessions (filter (\<lambda>r. fst (key r) = ''July'') (md_rows agg))) = 150"
    "sum_list (map transactions (filter (\<lambda>r. fst (key r) = ''July'') (md_rows agg))) = 20"
    "sum_list (map QTY (filter (\<lambda>r. fst (key r) = ''July'') (md_rows agg))) = 7"
    unfolding agg_def by code_simp+
  note inst = total_row_sums [OF agg_def out_def mem july [symmetric]]
  from inst [THEN conjunct1] obtain t where t: "t \<in> set out" and k: "key t = (''July'', Some ''Total'')"
    and v: "sessions t = 150" "transactions t = 20" "QTY t = 7"
    unfolding sums by (elim bexE conjE)
  from inst [THEN conjunct2, rule_format, OF no_total t k]
  have "sessions t = sum_list (map sessions (filter (\<lambda>r. fst (key r) = ''July'' \<and> snd (key r) \<noteq> Some ''Total'') out))"
    by (rule conjunct1)
  with t k v have "\<exists>t\<in>set out. key t = (''July'', Some ''Total'') \<and> sessions t = 150 \<and> transactions t = 20 \<and> QTY t = 7
       \<and> sessions t = sum_list (map sessions (filter (\<lambda>r. fst (key r) = ''July'' \<and> snd (key r) \<noteq> Some ''Total'') out))"
    by (intro bexI [of _ t] conjI) assumption+
  with mem july no_total show ?thesis unfolding out_def agg_def by (intro conjI) assumption+
qed

text \<open>
  Claim C6. The \<open>ECR\<close> of the month's Total row is the sum of the \<open>ECR\<close> cells of the
  month's rows of the month-and-device table, as the library sums a float column: the
  cells that are NaN are skipped, and when all cells are finite the sum is their exact
  sum. It is not computed from the summed transactions and sessions; the example after
  the theorem has a month where the two differ.
\<close>

theorem total_row_ecr:
  assumes agg: "agg = snd (create_month_device md)"
    and out: "out = create_month_device_totals agg"
    and r0: "r0 \<in> set (md_rows agg)"
    and m: "m = fst (key r0)"
  shows "(\<exists>t\<in>set out. key t = (m, Some ''Total'')
            \<and> ECR t = nansum (map ECR (filter (\<lambda>r. fst (key r) = m) (md_rows agg))))
       \<and> (\<forall>qs. map ECR (filter (\<lambda>r. fst (key r) = m) (md_rows agg)) = map Fin qs \<longrightarrow>
              nansum (map ECR (filter (\<lambda>r. fst (key r) = m) (md_rows agg))) = Fin (sum_list qs))
       \<and> (''Total'' \<notin> set (map dim_deviceCategory (rows md)) \<longrightarrow>
            (\<forall>t\<in>set out. key t = (m, Some ''Total'') \<longrightarrow>
                ECR t = nansum (map ECR (filter (\<lambda>r. fst (key r) = m) (md_rows agg)))))"
proof (intro conjI impI ballI allI)
  let ?t = "with_device_order device_order (month_total (md_rows agg) m)"
  have "m \<in> set (md_categories agg)"
    using month_device_key_member(1) r0 by (simp add: agg m month_device_categories)
  then have "?t \<in> set out" unfolding out by (rule total_row_member)
  moreover have "key ?t = (m, Some ''Total'')"
    by (simp add: with_device_order_simps month_total_simps Total_in_device_order)
  ultimately show "\<exists>t\<in>set out. key t = (m, Some ''Total'')
            \<and> ECR t = nansum (map ECR (filter (\<lambda>r. fst (key r) = m) (md_rows agg)))"
    by (intro bexI [of _ ?t]) (simp_all add: with_device_order_simps month_total_simps)
next
  fix qs assume "map ECR (filter (\<lambda>r. fst (key r) = m) (md_rows agg)) = map Fin qs"
  then show "nansum (map ECR (filter (\<lambda>r. fst (key r) = m) (md_rows agg))) = Fin (sum_list qs)"
    by (simp only: nansum_finite)
next
  fix t
  assume no_total: "''Total'' \<notin> set (map dim_deviceCategory (rows md))"
    and t: "t \<in> set out" and k: "key t = (m, Some ''Total'')"
  have eq: "t = with_device_order device_order (month_total (md_rows agg) m)"
    using total_rows_unique [OF no_total _ k] t by (simp add: out agg)
  show "ECR t = nansum (map ECR (filter (\<lambda>r. fst (key r) = m) (md_rows agg)))"
    by (simp add: eq with_device_order_simps month_total_simps)
qed

theorem total_row_ecr_witness:
  "md_rows (snd (create_month_device two_device_frame)) ! 0 \<in> set (md_rows (snd (create_month_device two_device_frame)))
   \<and> fst (key (md_rows (snd (create_month_device two_device_frame)) ! 0)) = ''July''
   \<and> ''Total'' \<notin> set (map dim_deviceCategory (rows two_device_frame))
   \<and> map ECR (filter (\<lambda>r. fst (key r) = ''July'') (md_rows (snd (create_month_device two_device_frame)))) = [Fin (1 / 10), Fin (1 / 5)]
   \<and> (\<exists>t\<in>set (create_month_device_totals (snd (create_month_device two_device_frame))).
         key t = (''July'', Some ''Total'') \<and> ECR t = Fin (1 / 10 + 1 / 5)
       \<and> true_div (transactions t) (sessions t) = Fin (2 / 15))"
proof -
  define agg where "agg = snd (create_month_device two_device_frame)"
  define out where "out = create_month_device_totals agg"
  have mem: "md_rows agg ! 0 \<in> set (md_rows agg)" unfolding agg_def by code_simp
  have july: "fst (key (md_rows agg ! 0)) = ''July''" unfolding agg_def by code_simp
  have no_total: "''Total'' \<notin> set (map dim_deviceCategory (rows two_device_frame))" by code_simp
  have ecrs: "map ECR (filter (\<lambda>r. fst (key r) = ''July'') (md_rows agg)) = map Fin [1 / 10, 1 / 5]"
    unfolding agg_def by code_simp
  have t: "out ! 2 \<in> set out" unfolding out_def agg_def by code_simp
  have k: "key (out ! 2) = (''July'', Some ''Total'')" unfolding out_def agg_def by code_simp
  have ratio: "true_div (transactions (out ! 2)) (sessions (out ! 2)) = Fin (2 / 15)"
    unfolding out_def agg_def by code_simp
  note inst = total_row_ecr [OF agg_def out_def mem july [symmetric]]
  from inst [THEN conjunct2, THEN conjunct2, rule_format, OF no_total t k]
  have "ECR (out ! 2) = nansum (map ECR (filter (\<lambda>r. fst (key r) = ''July'') (md_rows agg)))" .
  also from inst [THEN conjunct2, THEN conjunct1, rule_format, OF ecrs]
  have "\<dots> = Fin (sum_list [1 / 10, 1 / 5])" .
  finally have e: "ECR (out ! 2) = Fin (1 / 10 + 1 / 5)" by simp
  from t k e ratio have "\<exists>t\<in>set out. key t = (''July'', Some ''Total'') \<and> ECR t = Fin (1 / 10 + 1 / 5)
       \<and> true_div (transactions t) (sessions t) = Fin (2 / 15)"
    by (intro bexI [of _ "out ! 2"] conjI) assumption+
  moreover from ecrs have "map ECR (filter (\<lambda>r. fst (key r) = ''July'') (md_rows agg)) = [Fin (1 / 10), Fin (1 / 5)]"
    by simp
  ultimately show ?thesis using mem july no_total unfolding out_def agg_def by (intro conjI) assumption+
qed

section \<open>The browser sheet\<close>

lemma insertion_argsort_ok: "argsort_ok insertion_argsort"
  by (auto simp: argsort_ok_def insertion_argsort_def sorted_sort_key)

lemma ties_reversed_argsort_ok: "argsort_ok ties_reversed_argsort"
  by (auto simp: argsort_ok_def ties_reversed_argsort_def sorted_sort_key)

lemma sort_values_desc_eq:
  assumes ok: "argsort_ok argsort"
  shows "sort_values_desc argsort col df = rev (map (\<lambda>i. df ! (length df - Suc i)) (argsort (rev (map col df))))"
    and "map col (sort_values_desc argsort col df) = rev (map (\<lambda>i. rev (map col df) ! i) (argsort (rev (map col df))))"
proof -
  define p where "p = argsort (rev (map col df))"
  from ok have set_p: "set p = {..<length df}"
    unfolding argsort_ok_def p_def by (metis length_map length_rev)
  have idx: "rev [0..<length df] ! i = length df - Suc i" if "i \<in> set p" for i
    using that set_p by (simp add: rev_nth)
  show 1: "sort_values_desc argsort col df = rev (map (\<lambda>i. df ! (length df - Suc i)) (argsort (rev (map col df))))"
    unfolding sort_values_desc_def Let_def p_def [symmetric]
    by (simp add: rev_map [symmetric] idx cong: map_cong)
  have "col (df ! (length df - Suc i)) = rev (map col df) ! i" if "i \<in> set p" for i
    using that set_p by (simp add: rev_nth)
  then show "map col (sort_values_desc argsort col df) = rev (map (\<lambda>i. rev (map col df) ! i) (argsort (rev (map col df))))"
    unfolding 1 p_def [symmetric] by (simp add: rev_map cong: map_cong)
qed

lemma sort_values_desc_sorted:
  assumes ok: "argsort_ok argsort"
  shows "sorted_wrt (\<lambda>a b. col b \<le> col a) (sort_values_desc argsort col df)"
proof -
  from ok have "sorted (map (\<lambda>i. rev (map col df) ! i) (argsort (rev (map col df))))"
    unfolding argsort_ok_def by blast
  then have "sorted_wrt (\<lambda>x y. y \<le> x) (map col (sort_values_desc argsort col df))"
    unfolding sort_values_desc_eq(2) [OF ok] by (simp add: sorted_wrt_rev)
  then show ?thesis by (simp add: sorted_wrt_map)
qed

lemma sort_values_desc_set:
  assumes ok: "argsort_ok argsort"
  shows "set (sort_values_desc argsort col df) = set df"
proof -
  let ?n = "length df"
  from ok have set_p: "set (argsort (rev (map col df))) = {..<?n}"
    unfolding argsort_ok_def by (metis length_map length_rev)
  have "(\<lambda>i. df ! (?n - Suc i)) ` {..<?n} = set df"
  proof (intro equalityI subsetI)
    fix x assume "x \<in> (\<lambda>i. df ! (?n - Suc i)) ` {..<?n}"
    then show "x \<in> set df" by auto
  next
    fix x assume "x \<in> set df"
    then obtain j where j: "j < ?n" "df ! j = x" by (auto simp: in_set_conv_nth)
    then have "?n - Suc j < ?n" "df ! (?n - Suc (?n - Suc j)) = x" by auto
    then show "x \<in> (\<lambda>i. df ! (?n - Suc i)) ` {..<?n}" by (metis imageI lessThan_iff)
  qed
  then show ?thesis unfolding sort_values_desc_eq(1) [OF ok] by (simp add: set_p)
qed

lemma sort_values_desc_length:
  assumes ok: "argsort_ok argsort"
  shows "length (sort_values_desc argsort col df) = length df"
proof -
  from ok have "distinct (argsort (rev (map col df)))" "set (argsort (rev (map col df))) = {..<length df}"
    unfolding argsort_ok_def by (metis, metis length_map length_rev)
  then have "length (argsort (rev (map col df))) = length df"
    by (metis card_lessThan distinct_card)
  then show ?thesis unfolding sort_values_desc_eq(1) [OF ok] by simp
qed

lemma sorted_wrt_take_drop:
  assumes "sorted_wrt P xs" "a \<in> set (take k xs)" "b \<in> set (drop k xs)"
  shows "P a b"
proof -
  from assms(1) have "sorted_wrt P (take k xs @ drop k xs)" by simp
  with assms(2,3) show ?thesis unfolding sorted_wrt_append by blast
qed




section \<open>Failures of the Time Normalizer\<close>

lemma strptime_m_long: "3 \<le> length s \<Longrightarrow> strptime_m s = None"
  by (cases s rule: strptime_m.cases) simp_all

lemma strptime_m_minus: "strptime_m (CHR ''-'' # s) = None"
  by (cases "CHR ''-'' # s" rule: strptime_m.cases) (simp_all add: less_eq_char_def)

lemma str_nat_step: "10 \<le> k \<Longrightarrow> str_nat k = str_nat (k div 10) @ [digit_char (k mod 10)]"
  by (subst str_nat.simps) simp

lemma length_str_nat_pos: "0 < length (str_nat k)"
  by (subst str_nat.simps) simp

lemma length_str_nat_ge3:
  assumes "100 \<le> k"
  shows "3 \<le> length (str_nat k)"
proof -
  have "str_nat k = str_nat (k div 10) @ [digit_char (k mod 10)]"
    using assms by (intro str_nat_step) simp
  moreover have "str_nat (k div 10) = str_nat (k div 10 div 10) @ [digit_char (k div 10 mod 10)]"
    using assms by (intro str_nat_step) simp
  ultimately have "length (str_nat k) = length (str_nat (k div 10 div 10)) + 2" by simp
  with length_str_nat_pos [of "k div 10 div 10"] show ?thesis by linarith
qed


lemma strptime_str_nat_small:
  "\<forall>k\<in>set [0..<100]. (strptime_m (str_nat k) = None) = (k < 1 \<or> 12 < k)"
  by code_simp


lemma strptime_str_nat: "strptime_m (str_nat k) = None \<longleftrightarrow> k < 1 \<or> 12 < k"
proof (cases "k < 100")
  case True
  then have "k \<in> set [0..<100]" by simp
  then show ?thesis by (rule strptime_str_nat_small [THEN bspec])
next
  case False
  then have "strptime_m (str_nat k) = None" by (intro strptime_m_long length_str_nat_ge3) simp
  with False show ?thesis by simp
qed

lemma strptime_str_int: "strptime_m (str_int n) = None \<longleftrightarrow> n < 1 \<or> 12 < n"
proof (cases "n < 0")
  case True
  then show ?thesis by (simp add: str_int_def strptime_m_minus)
next
  case False
  have "(nat n < 1 \<or> 12 < nat n) = (n < 1 \<or> 12 < n)" using False by linarith
  with False show ?thesis by (simp only: str_int_def if_False strptime_str_nat)
qed

lemma map_month_Inl: "(\<exists>e. map_month s = Inl e) \<longleftrightarrow> strptime_m s = None"
  by (cases "strptime_m s") (simp_all add: map_month_def)

lemma date_part_None: "date_part i d = None \<longleftrightarrow> length (split_on CHR ''/'' d) \<le> i"
  by (simp add: date_part_def Let_def)

lemma year_text_Inl: "(\<exists>e. year_text r = Inl e) \<longleftrightarrow> length (split_on CHR ''/'' (dim_date r)) < 3"
proof (cases "date_part 2 (dim_date r)")
  case None
  then show ?thesis using date_part_None [of 2 "dim_date r"] by (simp add: year_text_def)
next
  case (Some y)
  then show ?thesis using date_part_None [of 2 "dim_date r"] by (simp add: year_text_def)
qed

lemma year_text_Inr: "year_text r = Inr t \<longleftrightarrow> (\<exists>y. date_part 2 (dim_date r) = Some y \<and> t = ''20'' @ zfill2 y)"
  by (cases "date_part 2 (dim_date r)") (auto simp: year_text_def)

lemma list_all2_right_witness:
  "list_all2 P xs ys \<Longrightarrow> y \<in> set ys \<Longrightarrow> \<exists>x\<in>set xs. P x y"
  by (induction rule: list_all2_induct) auto

lemma list_all2_left_witness:
  "list_all2 P xs ys \<Longrightarrow> x \<in> set xs \<Longrightarrow> \<exists>y\<in>set ys. P x y"
  by (induction rule: list_all2_induct) auto






section \<open>What the components write\<close>

lemma new_table_frame:
  assumes "new_table h t = (h', r)"
  shows "r = length h" "\<forall>i<length h. h' ! i = h ! i"
  using assms by (auto simp: new_table_def nth_append)

lemma table_at_Some: "table_at h a = Some t \<longleftrightarrow> a < length h \<and> h ! a = t"
  by (auto simp: table_at_def)

lemma run_create_browser_device_Some:
  assumes "run_create_browser_device h a = Some res"
  shows "\<exists>f. a < length h \<and> h ! a = Sessions f \<and> res = (h @ [Browsers (create_browser_device f)], length h)"
proof (cases "table_at h a")
  case None
  with assms show ?thesis by (simp add: run_create_browser_device_def)
next
  case (Some t)
  with assms show ?thesis
    by (cases t) (simp_all add: run_create_browser_device_def new_table_def table_at_Some)
qed

lemma run_create_month_device_totals_Some:
  assumes "run_create_month_device_totals h a = Some res"
  shows "\<exists>t. a < length h \<and> h ! a = MonthDevice t \<and> res = (h @ [MonthDeviceTotals (create_month_device_totals t)], length h)"
proof (cases "table_at h a")
  case None
  with assms show ?thesis by (simp add: run_create_month_device_totals_def)
next
  case (Some t)
  with assms show ?thesis
    by (cases t) (simp_all add: run_create_month_device_totals_def new_table_def table_at_Some)
qed

lemma run_create_month_device_Some:
  assumes "run_create_month_device h a = Some res"
  shows "\<exists>f. a < length h \<and> h ! a = Sessions f
     \<and> res = (h[a := Sessions (fst (create_month_device f))] @ [MonthDevice (snd (create_month_device f))], length h)"
proof (cases "table_at h a")
  case None
  with assms show ?thesis by (simp add: run_create_month_device_def)
next
  case (Some t)
  with assms show ?thesis
    by (cases t) (simp_all add: run_create_month_device_def new_table_def table_at_Some split: prod.splits)
qed

lemma run_create_mtm_compare_Some:
  assumes "run_create_mtm_compare h a b = Some res"
  shows "\<exists>f c. a < length h \<and> h ! a = Sessions f \<and> b < length h \<and> h ! b = CartAdds c
     \<and> res = (h @ [MonthToMonth (create_mtm_compare f c)], length h)"
proof (cases "table_at h a")
  case None
  with assms show ?thesis by (simp add: run_create_mtm_compare_def)
next
  case a: (Some t)
  show ?thesis
  proof (cases "table_at h b")
    case None
    with assms a show ?thesis by (cases t) (simp_all add: run_create_mtm_compare_def)
  next
    case b: (Some u)
    from assms a b obtain f where t: "t = Sessions f"
      by (cases t) (simp_all add: run_create_mtm_compare_def)
    from assms a b t obtain c where u: "u = CartAdds c"
      by (cases u) (simp_all add: run_create_mtm_compare_def)
    from assms a b show ?thesis
      unfolding t u by (simp add: run_create_mtm_compare_def new_table_def table_at_Some)
  qed
qed

lemma run_clean_tables_Some:
  assumes "run_clean_tables h a b = Some (Inr res)"
  shows "\<exists>s c sc adds. a < length h \<and> h ! a = SessionCsv s \<and> b < length h \<and> h ! b = CartCsv c
     \<and> clean_tables s c = Inr (sc, adds)
     \<and> res = (h[a := Sessions sc, b := CartAdds adds], a, b)"
proof (cases "table_at h a")
  case None
  with assms show ?thesis by (simp add: run_clean_tables_def)
next
  case a: (Some t)
  show ?thesis
  proof (cases "table_at h b")
    case None
    with assms a show ?thesis by (cases t) (simp_all add: run_clean_tables_def)
  next
    case b: (Some u)
    from assms a b obtain s where t: "t = SessionCsv s"
      by (cases t) (simp_all add: run_clean_tables_def)
    from assms a b t obtain c where u: "u = CartCsv c"
      by (cases u) (simp_all add: run_clean_tables_def)
    from assms a b have "case clean_tables s c of Inl e \<Rightarrow> False
        | Inr (sc, adds) \<Rightarrow> res = (h[a := Sessions sc, b := CartAdds adds], a, b)"
      unfolding t u by (simp add: run_clean_tables_def split: sum.splits prod.splits)
    then obtain sc adds where "clean_tables s c = Inr (sc, adds)"
      "res = (h[a := Sessions sc, b := CartAdds adds], a, b)"
      by (cases "clean_tables s c") (auto split: prod.splits)
    with a b show ?thesis unfolding t u table_at_Some by blast
  qed
qed

lemma map_fst_zip3:
  "length ys = length xs \<Longrightarrow> length zs = length xs \<Longrightarrow> map (\<lambda>t. f (fst t)) (zip xs (zip ys zs)) = map f xs"
  by (rule nth_equalityI) simp_all

lemma map_fst_zip2:
  "length ys = length xs \<Longrightarrow> map (\<lambda>t. f (fst t)) (zip xs ys) = map f xs"
  by (rule nth_equalityI) simp_all

lemma cleaned_session_simps:
  "dim_date (cleaned_session cats t) = dim_date (fst t)"
  "dim_browser (cleaned_session cats t) = dim_browser (fst t)"
  "sessions (cleaned_session cats t) = sessions (fst t)"
  "transactions (cleaned_session cats t) = transactions (fst t)"
  "QTY (cleaned_session cats t) = QTY (fst t)"
  "dim_deviceCategory (cleaned_session cats t) = title (dim_deviceCategory (fst t))"
  by (cases t; simp add: cleaned_session_def)+

lemma cleaned_cart_simps:
  "addsToCart (cleaned_cart cats t) = addsToCart (fst t)"
  "cart_Year (cleaned_cart cats t) = dim_year (fst t)"
  "cart_dim_month (cleaned_cart cats t) = str_int (dim_month (fst t))"
  by (cases t; simp add: cleaned_cart_def)+


lemma clean_tables_columns:
  assumes "clean_tables s c = Inr (sc, adds)"
  shows "map dim_date (rows sc) = map dim_date s \<and> map dim_browser (rows sc) = map dim_browser s
       \<and> map sessions (rows sc) = map sessions s \<and> map transactions (rows sc) = map transactions s
       \<and> map QTY (rows sc) = map QTY s
       \<and> map dim_deviceCategory (rows sc) = map (\<lambda>r. title (dim_deviceCategory r)) s
       \<and> map addsToCart (cart_rows adds) = map addsToCart c
       \<and> map cart_Year (cart_rows adds) = map dim_year c
       \<and> map cart_dim_month (cart_rows adds) = map (\<lambda>r. str_int (dim_month r)) c"
proof -
  from clean_tables_Inr [OF assms] obtain years months cart_months where
    m: "list_all2 (\<lambda>r m. map_month (month_text r) = Inr m) s months"
    and cm: "list_all2 (\<lambda>r m. map_month (str_int (dim_month r)) = Inr m) c cart_months"
    and y: "length years = length s"
    and sc: "rows sc = map (cleaned_session (unique months)) (zip s (zip years months))"
    and adds: "cart_rows adds = map (cleaned_cart (unique months)) (zip c cart_months)"
    by fastforce
  from m have lm: "length months = length s" by (simp add: list_all2_lengthD)
  from cm have lc: "length cart_months = length c" by (simp add: list_all2_lengthD)
  have 1: "map dim_date (rows sc) = map dim_date s"
    unfolding sc by (simp add: comp_def cleaned_session_simps map_fst_zip3 [OF y lm])
  have 2: "map dim_browser (rows sc) = map dim_browser s"
    unfolding sc by (simp add: comp_def cleaned_session_simps map_fst_zip3 [OF y lm])
  have 3: "map sessions (rows sc) = map sessions s"
    unfolding sc by (simp add: comp_def cleaned_session_simps map_fst_zip3 [OF y lm])
  have 4: "map transactions (rows sc) = map transactions s"
    unfolding sc by (simp add: comp_def cleaned_session_simps map_fst_zip3 [OF y lm])
  have 5: "map QTY (rows sc) = map QTY s"
    unfolding sc by (simp add: comp_def cleaned_session_simps map_fst_zip3 [OF y lm])
  have 6: "map dim_deviceCategory (rows sc) = map (\<lambda>r. title (dim_deviceCategory r)) s"
    unfolding sc
    by (simp add: comp_def cleaned_session_simps map_fst_zip3 [OF y lm, of "\<lambda>r. title (dim_deviceCategory r)"])
  have 7: "map addsToCart (cart_rows adds) = map addsToCart c"
    unfolding adds by (simp add: comp_def cleaned_cart_simps map_fst_zip2 [OF lc])
  have 8: "map cart_Year (cart_rows adds) = map dim_year c"
    unfolding adds by (simp add: comp_def cleaned_cart_simps map_fst_zip2 [OF lc])
  have 9: "map cart_dim_month (cart_rows adds) = map (\<lambda>r. str_int (dim_month r)) c"
    unfolding adds
    by (simp add: comp_def cleaned_cart_simps map_fst_zip2 [OF lc, of "\<lambda>r. str_int (dim_month r)"])
  from 1 2 3 4 5 6 7 8 9 show ?thesis by (intro conjI)
qed

text \<open>
  Claim C8, as the program has it. \<open>create_browser_device\<close>, \<open>create_mtm_compare\<close> and
  \<open>create_month_device_totals\<close> return a new table and leave every table that was there,
  the ones passed in among them, as it was. \<open>create_month_device\<close> returns a new table and
  writes into the table passed in: its \<open>month_name\<close> column is recast to the categories
  July to June, and every other table is as it was. \<open>clean_tables\<close> returns the two tables
  passed in, written into: the session table keeps its rows' \<open>dim_date\<close>, \<open>dim_browser\<close>,
  \<open>sessions\<close>, \<open>transactions\<close> and \<open>QTY\<close>, has \<open>dim_deviceCategory\<close> in title case and
  gains \<open>Month\<close>, \<open>Year\<close> and \<open>month_name\<close>; the cart-add table keeps \<open>addsToCart\<close>, has
  \<open>dim_month\<close> as strings and \<open>dim_year\<close> under the name \<open>Year\<close>, and gains
  \<open>month_name\<close>; every other table is as it was.
\<close>

theorem components_frame:
  "(run_create_browser_device h a = Some (h', r) \<longrightarrow> r = length h \<and> (\<forall>i<length h. h' ! i = h ! i))
 \<and> (run_create_mtm_compare h a b = Some (h', r) \<longrightarrow> r = length h \<and> (\<forall>i<length h. h' ! i = h ! i))
 \<and> (run_create_month_device_totals h a = Some (h', r) \<longrightarrow> r = length h \<and> (\<forall>i<length h. h' ! i = h ! i))
 \<and> (run_create_month_device h a = Some (h', r) \<longrightarrow>
       r = length h \<and> (\<forall>i<length h. i \<noteq> a \<longrightarrow> h' ! i = h ! i)
     \<and> (\<exists>md md'. h ! a = Sessions md \<and> h' ! a = Sessions md'
           \<and> month_categories md' = july_to_june
           \<and> rows md' = map (\<lambda>x. x\<lparr>month_name := categorical july_to_june (month_name x)\<rparr>) (rows md)))
 \<and> (run_clean_tables h a b = Some (Inr (h', p)) \<longrightarrow>
       p = (a, b) \<and> length h' = length h \<and> (\<forall>i<length h. i \<noteq> a \<and> i \<noteq> b \<longrightarrow> h' ! i = h ! i)
     \<and> (\<exists>s c sc adds. h ! a = SessionCsv s \<and> h ! b = CartCsv c
           \<and> h' ! a = Sessions sc \<and> h' ! b = CartAdds adds
           \<and> map dim_date (rows sc) = map dim_date s \<and> map dim_browser (rows sc) = map dim_browser s
           \<and> map sessions (rows sc) = map sessions s \<and> map transactions (rows sc) = map transactions s
           \<and> map QTY (rows sc) = map QTY s
           \<and> map dim_deviceCategory (rows sc) = map (\<lambda>r. title (dim_deviceCategory r)) s
           \<and> map addsToCart (cart_rows adds) = map addsToCart c
           \<and> map cart_Year (cart_rows adds) = map dim_year c
           \<and> map cart_dim_month (cart_rows adds) = map (\<lambda>r. str_int (dim_month r)) c))"
proof (intro conjI impI)
  assume "run_create_browser_device h a = Some (h', r)"
  from run_create_browser_device_Some [OF this]
  show "r = length h" "\<forall>i<length h. h' ! i = h ! i" by (auto simp: nth_append)
next
  assume "run_create_mtm_compare h a b = Some (h', r)"
  from run_create_mtm_compare_Some [OF this]
  show "r = length h" "\<forall>i<length h. h' ! i = h ! i" by (auto simp: nth_append)
next
  assume "run_create_month_device_totals h a = Some (h', r)"
  from run_create_month_device_totals_Some [OF this]
  show "r = length h" "\<forall>i<length h. h' ! i = h ! i" by (auto simp: nth_append)
next
  assume "run_create_month_device h a = Some (h', r)"
  from run_create_month_device_Some [OF this] obtain f where f: "a < length h" "h ! a = Sessions f"
    and h': "h' = h[a := Sessions (fst (create_month_device f))] @ [MonthDevice (snd (create_month_device f))]"
    and r: "r = length h" by auto
  show "r = length h" by (rule r)
  show "\<forall>i<length h. i \<noteq> a \<longrightarrow> h' ! i = h ! i" by (simp add: h' nth_append)
  have "month_categories (fst (create_month_device f)) = july_to_june"
    "rows (fst (create_month_device f)) = map (\<lambda>x. x\<lparr>month_name := categorical july_to_june (month_name x)\<rparr>) (rows f)"
    by (simp_all add: create_month_device_def Let_def)
  moreover have "h' ! a = Sessions (fst (create_month_device f))" using f by (simp add: h' nth_append)
  ultimately show "\<exists>md md'. h ! a = Sessions md \<and> h' ! a = Sessions md'
           \<and> month_categories md' = july_to_june
           \<and> rows md' = map (\<lambda>x. x\<lparr>month_name := categorical july_to_june (month_name x)\<rparr>) (rows md)"
    using f by blast
next
  assume "run_clean_tables h a b = Some (Inr (h', p))"
  from run_clean_tables_Some [OF this] obtain s c sc adds where
    a: "a < length h" "h ! a = SessionCsv s" and b: "b < length h" "h ! b = CartCsv c"
    and clean: "clean_tables s c = Inr (sc, adds)"
    and res: "h' = h[a := Sessions sc, b := CartAdds adds]" "p = (a, b)"
    by auto
  from a b have ne: "a \<noteq> b" by auto
  show "p = (a, b)" by (rule res)
  show "length h' = length h" by (simp add: res)
  show "\<forall>i<length h. i \<noteq> a \<and> i \<noteq> b \<longrightarrow> h' ! i = h ! i" by (simp add: res)
  have "h' ! a = Sessions sc" "h' ! b = CartAdds adds" using a b ne by (simp_all add: res)
  with a b clean_tables_columns [OF clean]
  show "\<exists>s c sc adds. h ! a = SessionCsv s \<and> h ! b = CartCsv c
           \<and> h' ! a = Sessions sc \<and> h' ! b = CartAdds adds
           \<and> map dim_date (rows sc) = map dim_date s \<and> map dim_browser (rows sc) = map dim_browser s
           \<and> map sessions (rows sc) = map sessions s \<and> map transactions (rows sc) = map transactions s
           \<and> map QTY (rows sc) = map QTY s
           \<and> map dim_deviceCategory (rows sc) = map (\<lambda>r. title (dim_deviceCategory r)) s
           \<and> map addsToCart (cart_rows adds) = map addsToCart c
           \<and> map cart_Year (cart_rows adds) = map dim_year c
           \<and> map cart_dim_month (cart_rows adds) = map (\<lambda>r. str_int (dim_month r)) c"
    by (intro exI [of _ s] exI [of _ c] exI [of _ sc] exI [of _ adds]) simp
qed


theorem components_frame_witness:
  "run_create_browser_device summer_heap 0 = Some (summer_heap @ [Browsers (create_browser_device summer_frame)], 3)
   \<and> (summer_heap @ [Browsers (create_browser_device summer_frame)]) ! 0 = summer_heap ! 0
   \<and> run_create_mtm_compare summer_heap 0 1 = Some (summer_heap @ [MonthToMonth (create_mtm_compare summer_frame summer_cart)], 3)
   \<and> (summer_heap @ [MonthToMonth (create_mtm_compare summer_frame summer_cart)]) ! 0 = summer_heap ! 0
   \<and> (summer_heap @ [MonthToMonth (create_mtm_compare summer_frame summer_cart)]) ! 1 = summer_heap ! 1
   \<and> run_create_month_device_totals summer_heap 2
       = Some (summer_heap @ [MonthDeviceTotals (create_month_device_totals (snd (create_month_device summer_frame)))], 3)
   \<and> (summer_heap @ [MonthDeviceTotals (create_month_device_totals (snd (create_month_device summer_frame)))]) ! 2 = summer_heap ! 2
   \<and> run_create_month_device summer_heap 0
       = Some (summer_heap[0 := Sessions (fst (create_month_device summer_frame))] @ [MonthDevice (snd (create_month_device summer_frame))], 3)
   \<and> (summer_heap[0 := Sessions (fst (create_month_device summer_frame))] @ [MonthDevice (snd (create_month_device summer_frame))]) ! 1 = summer_heap ! 1
   \<and> run_clean_tables summer_csv_heap 0 1 = Some (Inr ([Sessions summer_frame, CartAdds summer_cart], 0, 1))
   \<and> map sessions (rows summer_frame) = map sessions summer_csv
   \<and> map dim_deviceCategory (rows summer_frame) = map (\<lambda>r. title (dim_deviceCategory r)) summer_csv"
proof -
  have len: "length summer_heap = 3" by (simp add: summer_heap_def)
  have at: "table_at summer_heap 0 = Some (Sessions summer_frame)"
    "table_at summer_heap 1 = Some (CartAdds summer_cart)"
    "table_at summer_heap (Suc 0) = Some (CartAdds summer_cart)"
    "table_at summer_heap 2 = Some (MonthDevice (snd (create_month_device summer_frame)))"
    by (simp_all add: table_at_def summer_heap_def)
  have e1: "run_create_browser_device summer_heap 0 = Some (summer_heap @ [Browsers (create_browser_device summer_frame)], 3)"
    by (simp add: run_create_browser_device_def at new_table_def len)
  have e2: "run_create_mtm_compare summer_heap 0 1 = Some (summer_heap @ [MonthToMonth (create_mtm_compare summer_frame summer_cart)], 3)"
    by (simp add: run_create_mtm_compare_def at new_table_def len)
  have e3: "run_create_month_device_totals summer_heap 2
       = Some (summer_heap @ [MonthDeviceTotals (create_month_device_totals (snd (create_month_device summer_frame)))], 3)"
    by (simp add: run_create_month_device_totals_def at new_table_def len)
  have e4: "run_create_month_device summer_heap 0
       = Some (summer_heap[0 := Sessions (fst (create_month_device summer_frame))] @ [MonthDevice (snd (create_month_device summer_frame))], 3)"
    by (simp add: run_create_month_device_def at new_table_def len split: prod.splits)
  have cl: "clean_tables summer_csv summer_cart_csv = Inr (summer_frame, summer_cart)" by code_simp
  have e5: "run_clean_tables summer_csv_heap 0 1 = Some (Inr ([Sessions summer_frame, CartAdds summer_cart], 0, 1))"
    by (simp add: run_clean_tables_def table_at_def summer_csv_heap_def cl)
  note f = components_frame [where h = summer_heap]
  from f [THEN conjunct1, rule_format, OF e1]
  have "\<forall>i<length summer_heap. (summer_heap @ [Browsers (create_browser_device summer_frame)]) ! i = summer_heap ! i"
    by (rule conjunct2)
  then have k1: "(summer_heap @ [Browsers (create_browser_device summer_frame)]) ! 0 = summer_heap ! 0"
    by (simp add: len)
  from f [THEN conjunct2, THEN conjunct1, rule_format, OF e2]
  have "\<forall>i<length summer_heap. (summer_heap @ [MonthToMonth (create_mtm_compare summer_frame summer_cart)]) ! i = summer_heap ! i"
    by (rule conjunct2)
  then have k2: "(summer_heap @ [MonthToMonth (create_mtm_compare summer_frame summer_cart)]) ! 0 = summer_heap ! 0"
    "(summer_heap @ [MonthToMonth (create_mtm_compare summer_frame summer_cart)]) ! 1 = summer_heap ! 1"
    by (simp_all add: len)
  from f [THEN conjunct2, THEN conjunct2, THEN conjunct1, rule_format, OF e3]
  have "\<forall>i<length summer_heap. (summer_heap @ [MonthDeviceTotals (create_month_device_totals (snd (create_month_device summer_frame)))]) ! i = summer_heap ! i"
    by (rule conjunct2)
  then have k3: "(summer_heap @ [MonthDeviceTotals (create_month_device_totals (snd (create_month_device summer_frame)))]) ! 2 = summer_heap ! 2"
    by (simp add: len)
  from f [THEN conjunct2, THEN conjunct2, THEN conjunct2, THEN conjunct1, rule_format, OF e4]
  have "\<forall>i<length summer_heap. i \<noteq> 0 \<longrightarrow>
      (summer_heap[0 := Sessions (fst (create_month_device summer_frame))] @ [MonthDevice (snd (create_month_device summer_frame))]) ! i = summer_heap ! i"
    by (elim conjE)
  then have k4: "(summer_heap[0 := Sessions (fst (create_month_device summer_frame))] @ [MonthDevice (snd (create_month_device summer_frame))]) ! 1 = summer_heap ! 1"
    by (simp add: len)
  from components_frame [THEN conjunct2, THEN conjunct2, THEN conjunct2, THEN conjunct2, rule_format, OF e5]
  have k5: "map sessions (rows summer_frame) = map sessions summer_csv"
    "map dim_deviceCategory (rows summer_frame) = map (\<lambda>r. title (dim_deviceCategory r)) summer_csv"
    by (auto simp: summer_csv_heap_def)
  from e1 k1 e2 k2 e3 k3 e4 k4 e5 k5 show ?thesis by (intro conjI)
qed

text \<open>
  Claim C8 as stated fails. After \<open>clean_tables\<close> the session table passed in has the
  device category Desktop where it had desktop, and after \<open>create_month_device\<close> the table
  passed in has the month categories July to June where it had January, July.
\<close>

theorem tables_written_counterexample:
  "run_clean_tables [SessionCsv zero_session_csv, CartCsv []] 0 1
     = Some (Inr ([Sessions zero_session_frame, CartAdds \<lparr>cart_month_categories = [''July''], cart_rows = []\<rparr>], 0, 1))
   \<and> map dim_deviceCategory zero_session_csv = [''desktop'']
   \<and> map dim_deviceCategory (rows zero_session_frame) = [''Desktop'']
   \<and> run_create_month_device [Sessions january_first_frame] 0
     = Some ([Sessions (fst (create_month_device january_first_frame)),
              MonthDevice (snd (create_month_device january_first_frame))], 1)
   \<and> month_categories january_first_frame = [''January'', ''July'']
   \<and> month_categories (fst (create_month_device january_first_frame)) = july_to_june
   \<and> Sessions (fst (create_month_device january_first_frame)) \<noteq> Sessions january_first_frame"
proof -
  have cl: "clean_tables zero_session_csv [] = Inr (zero_session_frame, \<lparr>cart_month_categories = [''July''], cart_rows = []\<rparr>)"
    by code_simp
  have 1: "run_clean_tables [SessionCsv zero_session_csv, CartCsv []] 0 1
     = Some (Inr ([Sessions zero_session_frame, CartAdds \<lparr>cart_month_categories = [''July''], cart_rows = []\<rparr>], 0, 1))"
    by (simp add: run_clean_tables_def table_at_def cl)
  have 2: "map dim_deviceCategory zero_session_csv = [''desktop'']" by code_simp
  have 3: "map dim_deviceCategory (rows zero_session_frame) = [''Desktop'']" by code_simp
  have 4: "run_create_month_device [Sessions january_first_frame] 0
     = Some ([Sessions (fst (create_month_device january_first_frame)),
              MonthDevice (snd (create_month_device january_first_frame))], 1)"
    by (simp add: run_create_month_device_def table_at_def new_table_def split: prod.splits)
  have 5: "month_categories january_first_frame = [''January'', ''July'']" by code_simp
  have 6: "month_categories (fst (create_month_device january_first_frame)) = july_to_june"
    by (simp add: create_month_device_def Let_def)
  have "month_categories january_first_frame \<noteq> july_to_june" by code_simp
  with 6 have 7: "Sessions (fst (create_month_device january_first_frame)) \<noteq> Sessions january_first_frame"
    by auto
  from 1 2 3 4 5 6 7 show ?thesis by (intro conjI)
qed

section \<open>Runs of the pipeline\<close>

lemma run_generate_excel_written:
  "written (run_generate_excel argsort h session_counts adds_to_cart)
     = Some (map_sum id sheets (generate_excel argsort session_counts adds_to_cart))"
proof (cases "clean_tables session_counts adds_to_cart")
  case (Inl e)
  then show ?thesis
    by (simp add: run_generate_excel_def run_clean_tables_def new_table_def table_at_def
        generate_excel_def written_def nth_append)
next
  case (Inr p)
  obtain sc adds where p: "p = (sc, adds)" by (cases p)
  obtain sc' agg where md: "create_month_device sc = (sc', agg)" by (cases "create_month_device sc")
  show ?thesis
    by (simp add: run_generate_excel_def run_clean_tables_def run_create_month_device_def
        run_create_browser_device_def run_sort_top20_def run_create_mtm_compare_def
        run_create_month_device_totals_def new_table_def table_at_def
        generate_excel_def written_def sheets_def top_browsers_def nth_append Inr p md)
qed



end
